theory Spec2Isabelle
  imports Main "HOL-Library.Multiset"
begin

section \<open>Data model\<close>

text \<open>
  The services of the kanban backend work on relational tables through TypeORM
  repositories. Every table is a list of rows (the list order is the order in which the
  store hands rows back, which decides \<open>findOne\<close> and ties of \<open>ORDER BY\<close>); every
  operation takes the database and returns its outcome and the database it leaves.
  Exceptions of the source are values of type \<open>error\<close>, with the source's message.
\<close>

datatype error =
    NotFoundException string
  | ForbiddenException string
  | ConflictException string
  | BadRequestException string

text \<open>
  The entity files are not part of the sources at hand; the enumerations below are
  modelled from the spec: project status is one of active and deleted, a notification is
  unread, read or archived, the roles are ADMIN plus non-admin roles, and MEDIUM is one of
  the priorities.
\<close>

datatype ProjectStatus = active | deleted

datatype ProjectRole = ADMIN | MEMBER | VIEWER

datatype TaskPriority = LOW | MEDIUM | HIGH

datatype NotificationStatus = unread | read | archived

datatype TaskAction = ActRead | ActUpdate | ActDelete | ActMove | ActComment

record Project =
  p_id :: int
  p_ownerId :: int
  p_status :: ProjectStatus

record ProjectMember =
  pm_projectId :: int
  pm_userId :: int
  pm_role :: ProjectRole
  pm_isActive :: bool
  pm_leftAt :: "nat option"

record KanbanBoard =
  b_id :: int
  b_projectId :: int
  b_isActive :: bool

record KanbanColumn =
  c_id :: int
  c_boardId :: int
  c_isActive :: bool

record Task =
  t_id :: int
  t_title :: string
  t_projectId :: int
  t_boardId :: int
  t_columnId :: int
  t_createdById :: int
  t_assigneeId :: "int option"
  t_priority :: TaskPriority
  t_order :: int
  t_deletedAt :: "nat option"

record User =
  u_id :: int
  u_isActive :: bool
  u_deletedAt :: "nat option"

record Notification =
  n_userId :: int
  n_projectId :: "int option"
  n_status :: NotificationStatus
  n_archivedAt :: "nat option"

record RefreshToken =
  rt_userId :: int
  rt_isRevoked :: bool

text \<open>
  Modelled from the spec: the NotificationsService is an outbound, fire-and-forget sink
  whose code is not among the sources. A call to it is recorded, in order, in the
  \<open>sink\<close> of the database; the arguments are those the services pass.
\<close>

datatype NotificationCall =
    TaskUnassigned int int int
  | TaskAssigned int int int
  | ProjectMemberAdded int int int ProjectRole
  | ProjectMemberRemoved int int int

record db =
  projects :: "Project list"
  project_members :: "ProjectMember list"
  kanban_boards :: "KanbanBoard list"
  kanban_columns :: "KanbanColumn list"
  tasks :: "Task list"
  users :: "User list"
  notifications :: "Notification list"
  refresh_tokens :: "RefreshToken list"
  sink :: "NotificationCall list"

section \<open>Repository queries\<close>

text \<open>\<open>projectRepository.findOne({ where: { id } })\<close>\<close>

definition findProject :: "db \<Rightarrow> int \<Rightarrow> Project option" where
  "findProject s projectId = find (\<lambda>p. p_id p = projectId) (projects s)"

text \<open>\<open>projectRepository.findOne({ where: { id, status: 'active' } })\<close>\<close>

definition findActiveProject :: "db \<Rightarrow> int \<Rightarrow> Project option" where
  "findActiveProject s projectId =
     find (\<lambda>p. p_id p = projectId \<and> p_status p = active) (projects s)"

text \<open>\<open>projectMemberRepository.findOne({ where: { projectId, userId, isActive: true } })\<close>\<close>

definition findActiveMember :: "db \<Rightarrow> int \<Rightarrow> int \<Rightarrow> ProjectMember option" where
  "findActiveMember s projectId userId =
     find (\<lambda>m. pm_projectId m = projectId \<and> pm_userId m = userId \<and> pm_isActive m)
       (project_members s)"

text \<open>\<open>projectMemberRepository.findOne({ where: { projectId, userId } })\<close>\<close>

definition findMember :: "db \<Rightarrow> int \<Rightarrow> int \<Rightarrow> ProjectMember option" where
  "findMember s projectId userId =
     find (\<lambda>m. pm_projectId m = projectId \<and> pm_userId m = userId) (project_members s)"

text \<open>\<open>kanbanColumnRepository.findOne({ where: { id: columnId, isActive: true } })\<close>\<close>

definition findActiveColumn :: "db \<Rightarrow> int \<Rightarrow> KanbanColumn option" where
  "findActiveColumn s columnId =
     find (\<lambda>c. c_id c = columnId \<and> c_isActive c) (kanban_columns s)"

text \<open>\<open>kanbanBoardRepository.findOne({ where: { id, projectId, isActive: true } })\<close>\<close>

definition findActiveBoard :: "db \<Rightarrow> int \<Rightarrow> int \<Rightarrow> KanbanBoard option" where
  "findActiveBoard s boardId projectId =
     find (\<lambda>b. b_id b = boardId \<and> b_projectId b = projectId \<and> b_isActive b)
       (kanban_boards s)"

text \<open>\<open>project?.ownerId === userId\<close> for the project found by id, whatever its status.\<close>

definition ownsProject :: "db \<Rightarrow> int \<Rightarrow> int \<Rightarrow> bool" where
  "ownsProject s projectId userId =
     (case findProject s projectId of
        None \<Rightarrow> False
      | Some project \<Rightarrow> p_ownerId project = userId)"

text \<open>\<open>taskRepository.findOne({ where: { id: taskId } })\<close>\<close>

definition findTask :: "db \<Rightarrow> int \<Rightarrow> Task option" where
  "findTask s taskId = find (\<lambda>t. t_id t = taskId) (tasks s)"

text \<open>
  The bulk updates of the cascades pass an object criterion to \<open>manager.update\<close>.
  TypeORM 0.3 (the version that has \<open>DataSource\<close>) binds every value of such a
  criterion as a parameter of the comparison \<open>=\<close>. A \<open>null\<close> value gives
  \<open>column = NULL\<close>, which is true of no row, whether the column is NULL or not.
\<close>

definition criterionNull :: "'a option \<Rightarrow> bool" where
  "criterionNull v = False"

text \<open>
  A plain array as the value (\<open>boardId: boardIds\<close>, without \<open>In\<close>) is bound as one
  parameter of \<open>column = ?\<close> as well, and no row has a number equal to the array.
\<close>

definition criterionArray :: "int \<Rightarrow> int list \<Rightarrow> bool" where
  "criterionArray v vs = False"

section \<open>TasksService: access control\<close>

definition checkProjectAccess :: "db \<Rightarrow> int \<Rightarrow> int \<Rightarrow> error + unit" where
  "checkProjectAccess s projectId userId =
     (case findActiveProject s projectId of
        None \<Rightarrow> Inl (NotFoundException ''Project not found'')
      | Some project \<Rightarrow>
          if p_ownerId project = userId then Inr ()
          else (case findActiveMember s projectId userId of
                  None \<Rightarrow> Inl (ForbiddenException ''You do not have access to this project'')
                | Some member \<Rightarrow> Inr ()))"

definition checkTaskPermission :: "db \<Rightarrow> Task \<Rightarrow> int \<Rightarrow> TaskAction \<Rightarrow> bool" where
  "checkTaskPermission s task userId action =
     (if ownsProject s (t_projectId task) userId then True
      else
        let member = findActiveMember s (t_projectId task) userId in
        if (case member of None \<Rightarrow> False | Some m \<Rightarrow> pm_role m = ADMIN) then True
        else if t_createdById task = userId \<and> (action = ActUpdate \<or> action = ActDelete)
          then True
        else if t_assigneeId task = Some userId \<and> (action = ActUpdate \<or> action = ActComment)
          then True
        else if member \<noteq> None \<and> (action = ActRead \<or> action = ActComment) then True
        else False)"

definition getTaskById :: "db \<Rightarrow> int \<Rightarrow> int \<Rightarrow> error + Task" where
  "getTaskById s taskId userId =
     (case findTask s taskId of
        None \<Rightarrow> Inl (NotFoundException ''Task not found'')
      | Some task \<Rightarrow>
          (case checkProjectAccess s (t_projectId task) userId of
             Inl e \<Rightarrow> Inl e
           | Inr u \<Rightarrow> Inr task))"

definition validateColumnAccess :: "db \<Rightarrow> int \<Rightarrow> int \<Rightarrow> int \<Rightarrow> error + unit" where
  "validateColumnAccess s columnId projectId userId =
     (case findActiveColumn s columnId of
        None \<Rightarrow> Inl (NotFoundException ''Column not found'')
      | Some column \<Rightarrow>
          (case findActiveBoard s (c_boardId column) projectId of
             None \<Rightarrow> Inl (NotFoundException ''Column does not belong to project'')
           | Some board \<Rightarrow> Inr ()))"

definition validateTaskAccess :: "db \<Rightarrow> int \<Rightarrow> int \<Rightarrow> int \<Rightarrow> int \<Rightarrow> error + unit" where
  "validateTaskAccess s projectId boardId columnId userId =
     (case checkProjectAccess s projectId userId of
        Inl e \<Rightarrow> Inl e
      | Inr u \<Rightarrow>
          (case findActiveBoard s boardId projectId of
             None \<Rightarrow> Inl (NotFoundException ''Board not found or does not belong to project'')
           | Some board \<Rightarrow> validateColumnAccess s columnId projectId userId))"

section \<open>TasksService: task operations\<close>

record CreateTaskDto =
  cd_title :: string
  cd_projectId :: int
  cd_boardId :: int
  cd_columnId :: int
  cd_assigneeId :: "int option"
  cd_priority :: "TaskPriority option"

text \<open>
  A field of an update request is absent (\<open>undefined\<close>), \<open>null\<close> or a number; the
  assignee of a stored task is \<open>null\<close> (\<open>None\<close>) or a number.
\<close>

datatype JsNumber = Undefined | JsNull | JsNum int

record UpdateTaskDto =
  ud_title :: "string option"
  ud_columnId :: "int option"
  ud_assigneeId :: JsNumber
  ud_priority :: "TaskPriority option"

record MoveTaskDto =
  md_targetColumnId :: int
  md_newOrder :: "int option"

record ReorderTasksDto =
  rd_taskIds :: "int list"

text \<open>\<open>SELECT MAX(task.order) ... WHERE task.columnId = :columnId\<close>: NULL without rows.\<close>

fun maxOf :: "int list \<Rightarrow> int option" where
  "maxOf [] = None"
| "maxOf (x # xs) = (case maxOf xs of None \<Rightarrow> Some x | Some m \<Rightarrow> Some (max x m))"

definition maxOrder :: "Task list \<Rightarrow> int \<Rightarrow> int option" where
  "maxOrder tbl columnId = maxOf (map t_order (filter (\<lambda>t. t_columnId t = columnId) tbl))"

text \<open>
  \<open>(maxOrder?.maxOrder || -1) + 1\<close>: the operator \<open>||\<close> takes its right operand when
  the left one is falsy, which \<open>null\<close> is and the number 0 is as well.
\<close>

definition nextOrder :: "int option \<Rightarrow> int" where
  "nextOrder m = (case m of None \<Rightarrow> - 1 | Some v \<Rightarrow> if v = 0 then - 1 else v) + 1"

text \<open>The store generates the primary key of an inserted row: one above the largest.\<close>

definition nextId :: "Task list \<Rightarrow> int" where
  "nextId tbl = (case maxOf (map t_id tbl) of None \<Rightarrow> 1 | Some m \<Rightarrow> max m 0 + 1)"

text \<open>\<open>manager.save(task)\<close>: the row with the task's id is replaced, or the task inserted.\<close>

definition saveTask :: "Task \<Rightarrow> Task list \<Rightarrow> Task list" where
  "saveTask t tbl =
     (if t_id t \<in> set (map t_id tbl)
      then map (\<lambda>r. if t_id r = t_id t then t else r) tbl
      else tbl @ [t])"

definition createTask :: "db \<Rightarrow> CreateTaskDto \<Rightarrow> int \<Rightarrow> (error + Task) \<times> db" where
  "createTask s dto userId =
     (case validateTaskAccess s (cd_projectId dto) (cd_boardId dto) (cd_columnId dto) userId of
        Inl e \<Rightarrow> (Inl e, s)
      | Inr u \<Rightarrow>
          let task = \<lparr> t_id = nextId (tasks s),
                       t_title = cd_title dto,
                       t_projectId = cd_projectId dto,
                       t_boardId = cd_boardId dto,
                       t_columnId = cd_columnId dto,
                       t_createdById = userId,
                       t_assigneeId = cd_assigneeId dto,
                       t_priority = (case cd_priority dto of None \<Rightarrow> MEDIUM | Some p \<Rightarrow> p),
                       t_order = nextOrder (maxOrder (tasks s) (cd_columnId dto)),
                       t_deletedAt = None \<rparr>
          in (Inr task, s\<lparr>tasks := saveTask task (tasks s)\<rparr>))"

definition getColumnTasks :: "db \<Rightarrow> int \<Rightarrow> int \<Rightarrow> error + Task list" where
  "getColumnTasks s columnId userId =
     (case findActiveColumn s columnId of
        None \<Rightarrow> Inl (NotFoundException ''Column not found'')
      | Some column \<Rightarrow>
          (case checkProjectAccess s (c_boardId column) userId of
             Inl e \<Rightarrow> Inl e
           | Inr u \<Rightarrow>
               Inr (sort_key t_order
                      (filter (\<lambda>t. t_columnId t = columnId \<and> t_projectId t = c_boardId column)
                         (tasks s)))))"

text \<open>\<open>Object.assign(task, updateTaskDto)\<close>: the fields present in the request overwrite.\<close>

definition assignDto :: "Task \<Rightarrow> UpdateTaskDto \<Rightarrow> Task" where
  "assignDto task dto =
     task\<lparr> t_title := (case ud_title dto of None \<Rightarrow> t_title task | Some v \<Rightarrow> v),
           t_columnId := (case ud_columnId dto of None \<Rightarrow> t_columnId task | Some v \<Rightarrow> v),
           t_assigneeId := (case ud_assigneeId dto of
                              Undefined \<Rightarrow> t_assigneeId task
                            | JsNull \<Rightarrow> None
                            | JsNum v \<Rightarrow> Some v),
           t_priority := (case ud_priority dto of None \<Rightarrow> t_priority task | Some v \<Rightarrow> v) \<rparr>"

text \<open>\<open>oldAssigneeId !== newAssigneeId\<close>, strict inequality of a stored and a requested value.\<close>

fun strictNe :: "int option \<Rightarrow> JsNumber \<Rightarrow> bool" where
  "strictNe None JsNull = False"
| "strictNe (Some a) (JsNum b) = (a \<noteq> b)"
| "strictNe old new = True"

definition updateTask :: "db \<Rightarrow> int \<Rightarrow> UpdateTaskDto \<Rightarrow> int \<Rightarrow> (error + Task) \<times> db" where
  "updateTask s taskId dto userId =
     (case getTaskById s taskId userId of
        Inl e \<Rightarrow> (Inl e, s)
      | Inr task \<Rightarrow>
          if \<not> checkTaskPermission s task userId ActUpdate
          then (Inl (ForbiddenException ''You do not have permission to update this task''), s)
          else
            (case (case ud_columnId dto of
                     None \<Rightarrow> Inr ()
                   | Some c \<Rightarrow>
                       if c \<noteq> 0 \<and> c \<noteq> t_columnId task
                       then validateColumnAccess s c (t_projectId task) userId
                       else Inr ()) of
               Inl e \<Rightarrow> (Inl e, s)
             | Inr u \<Rightarrow>
                 let oldAssigneeId = t_assigneeId task;
                     newAssigneeId = ud_assigneeId dto;
                     savedTask = assignDto task dto;
                     s1 = s\<lparr>tasks := saveTask savedTask (tasks s)\<rparr>;
                     s2 = (if strictNe oldAssigneeId newAssigneeId
                           then (case oldAssigneeId of
                                   Some old \<Rightarrow>
                                     if old \<noteq> 0 \<and> old \<noteq> userId
                                     then s1\<lparr>sink := sink s1 @ [TaskUnassigned old (t_id task) userId]\<rparr>
                                     else s1
                                 | None \<Rightarrow> s1)
                           else s1);
                     s3 = (if strictNe oldAssigneeId newAssigneeId
                           then (case newAssigneeId of
                                   JsNum new \<Rightarrow>
                                     if new \<noteq> 0 \<and> new \<noteq> userId
                                     then s2\<lparr>sink := sink s2 @ [TaskAssigned new (t_id task) userId]\<rparr>
                                     else s2
                                 | _ \<Rightarrow> s2)
                           else s2)
                 in (Inr savedTask, s3)))"

text \<open>
  \<open>reorderTasksInColumnHelper\<close>: the rows of the column are read in ascending order
  (\<open>sort_key\<close> is stable, so ties come in table order), and the loop walks them with the
  counter \<open>order\<close>, saving each row but the moved one.
\<close>

fun reorderHelperLoop :: "int \<Rightarrow> int \<Rightarrow> int \<Rightarrow> Task list \<Rightarrow> Task list \<Rightarrow> Task list" where
  "reorderHelperLoop movedTaskId newOrder ord [] tbl = tbl"
| "reorderHelperLoop movedTaskId newOrder ord (task # rest) tbl =
     (if t_id task \<noteq> movedTaskId
      then let ord1 = (if ord = newOrder then ord + 1 else ord)
           in reorderHelperLoop movedTaskId newOrder (ord1 + 1) rest
                (saveTask (task\<lparr>t_order := ord1\<rparr>) tbl)
      else reorderHelperLoop movedTaskId newOrder ord rest tbl)"

definition reorderTasksInColumnHelper :: "Task list \<Rightarrow> int \<Rightarrow> int \<Rightarrow> int \<Rightarrow> Task list" where
  "reorderTasksInColumnHelper tbl columnId movedTaskId newOrder =
     reorderHelperLoop movedTaskId newOrder 0
       (sort_key t_order (filter (\<lambda>t. t_columnId t = columnId) tbl)) tbl"

definition moveTask :: "db \<Rightarrow> int \<Rightarrow> MoveTaskDto \<Rightarrow> int \<Rightarrow> (error + string) \<times> db" where
  "moveTask s taskId dto userId =
     (case getTaskById s taskId userId of
        Inl e \<Rightarrow> (Inl e, s)
      | Inr task \<Rightarrow>
          if \<not> checkTaskPermission s task userId ActMove
          then (Inl (ForbiddenException ''You do not have permission to move this task''), s)
          else
            (case validateColumnAccess s (md_targetColumnId dto) (t_projectId task) userId of
               Inl e \<Rightarrow> (Inl e, s)
             | Inr u \<Rightarrow>
                 let task1 = task\<lparr>t_columnId := md_targetColumnId dto\<rparr>;
                     task2 = (case md_newOrder dto of
                                Some n \<Rightarrow> task1\<lparr>t_order := n\<rparr>
                              | None \<Rightarrow>
                                  task1\<lparr>t_order :=
                                    nextOrder (maxOrder (tasks s) (md_targetColumnId dto))\<rparr>);
                     tbl1 = saveTask task2 (tasks s);
                     tbl2 = (case md_newOrder dto of
                               Some n \<Rightarrow>
                                 reorderTasksInColumnHelper tbl1 (md_targetColumnId dto) taskId n
                             | None \<Rightarrow> tbl1)
                 in (Inr ''Task moved successfully'', s\<lparr>tasks := tbl2\<rparr>)))"

text \<open>
  The loop of \<open>reorderTasksInColumn\<close>: \<open>UPDATE tasks SET order = i WHERE id = taskIds[i]
  AND columnId = columnId\<close> for every index.
\<close>

fun reorderLoop :: "int \<Rightarrow> int \<Rightarrow> int list \<Rightarrow> Task list \<Rightarrow> Task list" where
  "reorderLoop columnId i [] tbl = tbl"
| "reorderLoop columnId i (x # xs) tbl =
     reorderLoop columnId (i + 1) xs
       (map (\<lambda>t. if t_id t = x \<and> t_columnId t = columnId then t\<lparr>t_order := i\<rparr> else t) tbl)"

definition reorderTasksInColumn :: "db \<Rightarrow> int \<Rightarrow> ReorderTasksDto \<Rightarrow> int \<Rightarrow> (error + string) \<times> db" where
  "reorderTasksInColumn s columnId dto userId =
     (case findActiveColumn s columnId of
        None \<Rightarrow> (Inl (NotFoundException ''Column not found''), s)
      | Some column \<Rightarrow>
          (case checkProjectAccess s (c_boardId column) userId of
             Inl e \<Rightarrow> (Inl e, s)
           | Inr u \<Rightarrow>
               (Inr ''Tasks reordered successfully'',
                s\<lparr>tasks := reorderLoop columnId 0 (rd_taskIds dto) (tasks s)\<rparr>)))"

section \<open>ProjectsService\<close>

definition projects_checkProjectAccess :: "db \<Rightarrow> int \<Rightarrow> int \<Rightarrow> bool" where
  "projects_checkProjectAccess s projectId userId =
     (if ownsProject s projectId userId then True
      else findActiveMember s projectId userId \<noteq> None)"

definition isProjectAdmin :: "db \<Rightarrow> int \<Rightarrow> int \<Rightarrow> bool" where
  "isProjectAdmin s projectId userId =
     (case findActiveMember s projectId userId of
        None \<Rightarrow> False
      | Some member \<Rightarrow> pm_role member = ADMIN)"

definition findProjectById :: "db \<Rightarrow> int \<Rightarrow> int \<Rightarrow> error + Project" where
  "findProjectById s ident userId =
     (case findActiveProject s ident of
        None \<Rightarrow> Inl (NotFoundException ''Project not found'')
      | Some project \<Rightarrow>
          if \<not> projects_checkProjectAccess s (p_id project) userId
          then Inl (ForbiddenException ''You do not have access to this project'')
          else Inr project)"

text \<open>\<open>save(project)\<close>: the row with the project's id is replaced, or the project inserted.\<close>

definition saveProject :: "Project \<Rightarrow> Project list \<Rightarrow> Project list" where
  "saveProject p tbl =
     (if p_id p \<in> set (map p_id tbl)
      then map (\<lambda>r. if p_id r = p_id p then p else r) tbl
      else tbl @ [p])"

text \<open>\<open>deleteProject\<close> of projects.service.ts, the service the controller is wired to.\<close>

definition deleteProject :: "db \<Rightarrow> int \<Rightarrow> int \<Rightarrow> (error + string) \<times> db" where
  "deleteProject s ident userId =
     (case findProjectById s ident userId of
        Inl e \<Rightarrow> (Inl e, s)
      | Inr project \<Rightarrow>
          if p_ownerId project \<noteq> userId
          then (Inl (ForbiddenException ''Only project owner can delete project''), s)
          else (Inr ''Project deleted successfully'',
                s\<lparr>projects := saveProject (project\<lparr>p_status := deleted\<rparr>) (projects s)\<rparr>))"

text \<open>
  \<open>softDeleteProject\<close> of the ProjectsService variant that has the cascade; \<open>now\<close> is
  the value of \<open>new Date()\<close>. The criterion of the columns update is
  \<open>{ boardId: boardIds, isActive: true }\<close> with the array of the ids of all boards of the
  project, and the criterion of the tasks update is \<open>{ projectId: id, deletedAt: null }\<close>.
\<close>

definition softDeleteProject :: "db \<Rightarrow> nat \<Rightarrow> int \<Rightarrow> int \<Rightarrow> (error + string) \<times> db" where
  "softDeleteProject s now ident userId =
     (case findProjectById s ident userId of
        Inl e \<Rightarrow> (Inl e, s)
      | Inr project \<Rightarrow>
          if p_ownerId project \<noteq> userId
          then (Inl (ForbiddenException ''Only project owner can delete project''), s)
          else
            let s1 = s\<lparr>projects := saveProject (project\<lparr>p_status := deleted\<rparr>) (projects s)\<rparr>;
                s2 = s1\<lparr>project_members :=
                          map (\<lambda>m. if pm_projectId m = ident \<and> pm_isActive m
                                    then m\<lparr>pm_isActive := False, pm_leftAt := Some now\<rparr> else m)
                            (project_members s1)\<rparr>;
                s3 = s2\<lparr>kanban_boards :=
                          map (\<lambda>b. if b_projectId b = ident \<and> b_isActive b
                                    then b\<lparr>b_isActive := False\<rparr> else b)
                            (kanban_boards s2)\<rparr>;
                boards = filter (\<lambda>b. b_projectId b = ident) (kanban_boards s3);
                s4 = (if length boards > 0
                      then let boardIds = map b_id boards
                           in s3\<lparr>kanban_columns :=
                                   map (\<lambda>c. if criterionArray (c_boardId c) boardIds \<and> c_isActive c
                                             then c\<lparr>c_isActive := False\<rparr> else c)
                                     (kanban_columns s3)\<rparr>
                      else s3);
                s5 = s4\<lparr>tasks :=
                          map (\<lambda>t. if t_projectId t = ident \<and> criterionNull (t_deletedAt t)
                                    then t\<lparr>t_deletedAt := Some now\<rparr> else t)
                            (tasks s4)\<rparr>;
                s6 = s5\<lparr>notifications :=
                          map (\<lambda>n. if n_projectId n = Some ident \<and> n_status n = unread
                                    then n\<lparr>n_status := archived, n_archivedAt := Some now\<rparr> else n)
                            (notifications s5)\<rparr>
            in (Inr ''Project and all related data soft deleted successfully'', s6))"

text \<open>
  The legacy \<open>deleteProject\<close> of the ProjectsService variant with the cascade, which
  forwards to \<open>softDeleteProject\<close>.
\<close>

definition deleteProject_legacy :: "db \<Rightarrow> nat \<Rightarrow> int \<Rightarrow> int \<Rightarrow> (error + string) \<times> db" where
  "deleteProject_legacy s now ident userId = softDeleteProject s now ident userId"

text \<open>\<open>userRepository.findOne({ where: { id } })\<close>\<close>

definition findUser :: "db \<Rightarrow> int \<Rightarrow> User option" where
  "findUser s userId = find (\<lambda>u. u_id u = userId) (users s)"

definition addProjectMember ::
  "db \<Rightarrow> int \<Rightarrow> int \<Rightarrow> ProjectRole \<Rightarrow> int \<Rightarrow> (error + string) \<times> db" where
  "addProjectMember s projectId memberUserId role currentUserId =
     (case findProjectById s projectId currentUserId of
        Inl e \<Rightarrow> (Inl e, s)
      | Inr project \<Rightarrow>
          let isOwner = (p_ownerId project = currentUserId);
              isAdmin = isProjectAdmin s projectId currentUserId
          in if \<not> isOwner \<and> \<not> isAdmin
             then (Inl (ForbiddenException ''Only project owner or admin can add members''), s)
             else
               (case findUser s memberUserId of
                  None \<Rightarrow> (Inl (NotFoundException ''User not found''), s)
                | Some user \<Rightarrow>
                    (case findMember s projectId memberUserId of
                       Some existingMember \<Rightarrow>
                         (Inl (ConflictException ''User is already a member of this project''), s)
                     | None \<Rightarrow>
                         let projectMember = \<lparr> pm_projectId = projectId,
                                                pm_userId = memberUserId,
                                                pm_role = role,
                                                pm_isActive = True,
                                                pm_leftAt = None \<rparr>;
                             s1 = s\<lparr>project_members := project_members s @ [projectMember]\<rparr>;
                             s2 = s1\<lparr>sink := sink s1 @
                                     [ProjectMemberAdded memberUserId projectId currentUserId role]\<rparr>
                         in (Inr ''Member added successfully'', s2))))"

definition removeProjectMember :: "db \<Rightarrow> int \<Rightarrow> int \<Rightarrow> int \<Rightarrow> (error + string) \<times> db" where
  "removeProjectMember s projectId memberUserId currentUserId =
     (case findProjectById s projectId currentUserId of
        Inl e \<Rightarrow> (Inl e, s)
      | Inr project \<Rightarrow>
          let isOwner = (p_ownerId project = currentUserId);
              isAdmin = isProjectAdmin s projectId currentUserId
          in if \<not> isOwner \<and> \<not> isAdmin
             then (Inl (ForbiddenException ''Only project owner or admin can remove members''), s)
             else if p_ownerId project = memberUserId
             then (Inl (ForbiddenException ''Cannot remove project owner''), s)
             else
               let s1 = s\<lparr>project_members :=
                           map (\<lambda>m. if pm_projectId m = projectId \<and> pm_userId m = memberUserId
                                     then m\<lparr>pm_isActive := False\<rparr> else m)
                             (project_members s)\<rparr>;
                   s2 = s1\<lparr>sink := sink s1 @
                           [ProjectMemberRemoved memberUserId projectId currentUserId]\<rparr>
               in (Inr ''Member removed successfully'', s2))"

section \<open>UsersService\<close>

text \<open>\<open>save(user)\<close>: the row with the user's id is replaced, or the user inserted.\<close>

definition saveUser :: "User \<Rightarrow> User list \<Rightarrow> User list" where
  "saveUser u tbl =
     (if u_id u \<in> set (map u_id tbl)
      then map (\<lambda>r. if u_id r = u_id u then u else r) tbl
      else tbl @ [u])"

text \<open>
  \<open>softDeleteUser\<close>; \<open>now\<close> is the value of \<open>new Date()\<close>. The criteria of the two
  tasks updates are \<open>{ createdById: userId, deletedAt: null }\<close> and
  \<open>{ assigneeId: userId, deletedAt: null }\<close>.
\<close>

definition softDeleteUser :: "db \<Rightarrow> nat \<Rightarrow> int \<Rightarrow> int \<Rightarrow> (error + string) \<times> db" where
  "softDeleteUser s now userId currentUserId =
     (if userId = currentUserId
      then (Inl (ForbiddenException ''Users cannot delete themselves''), s)
      else
        (case findUser s userId of
           None \<Rightarrow> (Inl (NotFoundException ''User not found''), s)
         | Some user \<Rightarrow>
             let s1 = s\<lparr>users :=
                         saveUser (user\<lparr>u_deletedAt := Some now, u_isActive := False\<rparr>) (users s)\<rparr>;
                 s2 = s1\<lparr>projects :=
                           map (\<lambda>p. if p_ownerId p = userId \<and> p_status p = active
                                     then p\<lparr>p_status := deleted\<rparr> else p)
                             (projects s1)\<rparr>;
                 s3 = s2\<lparr>project_members :=
                           map (\<lambda>m. if pm_userId m = userId \<and> pm_isActive m
                                     then m\<lparr>pm_isActive := False, pm_leftAt := Some now\<rparr> else m)
                             (project_members s2)\<rparr>;
                 s4 = s3\<lparr>tasks :=
                           map (\<lambda>t. if t_createdById t = userId \<and> criterionNull (t_deletedAt t)
                                     then t\<lparr>t_deletedAt := Some now\<rparr> else t)
                             (tasks s3)\<rparr>;
                 s5 = s4\<lparr>tasks :=
                           map (\<lambda>t. if t_assigneeId t = Some userId \<and> criterionNull (t_deletedAt t)
                                     then t\<lparr>t_deletedAt := Some now\<rparr> else t)
                             (tasks s4)\<rparr>;
                 s6 = s5\<lparr>notifications :=
                           map (\<lambda>n. if n_userId n = userId \<and> n_status n = unread
                                     then n\<lparr>n_status := archived, n_archivedAt := Some now\<rparr> else n)
                             (notifications s5)\<rparr>;
                 s7 = s6\<lparr>refresh_tokens :=
                           map (\<lambda>r. if rt_userId r = userId \<and> \<not> rt_isRevoked r
                                     then r\<lparr>rt_isRevoked := True\<rparr> else r)
                             (refresh_tokens s6)\<rparr>
             in (Inr ''User and all related data soft deleted successfully'', s7)))"

section \<open>The effect of the renumbering loop\<close>

text \<open>
  The rows \<open>reorderTasksInColumnHelper\<close> writes, in the order of the loop: every row of
  the list but the moved one, with the value the counter \<open>order\<close> has when the row is
  reached.
\<close>

fun renumber :: "int \<Rightarrow> int \<Rightarrow> int \<Rightarrow> Task list \<Rightarrow> Task list" where
  "renumber movedTaskId newOrder ord [] = []"
| "renumber movedTaskId newOrder ord (task # rest) =
     (if t_id task \<noteq> movedTaskId
      then let ord1 = (if ord = newOrder then ord + 1 else ord)
           in task\<lparr>t_order := ord1\<rparr> # renumber movedTaskId newOrder (ord1 + 1) rest
      else renumber movedTaskId newOrder ord rest)"

text \<open>
  The value the counter gives to the \<open>k\<close>-th row that is written, when the loop starts
  with the counter at \<open>ord\<close>: the position \<open>newOrder\<close> is stepped over.
\<close>

definition slotFrom :: "int \<Rightarrow> int \<Rightarrow> nat \<Rightarrow> int" where
  "slotFrom newOrder ord k =
     (if ord \<le> newOrder \<and> newOrder \<le> ord + int k then ord + int k + 1 else ord + int k)"

text \<open>
  The rows of a column other than the moved task, in the ascending order in which the
  helper reads them.
\<close>

definition otherRows :: "Task list \<Rightarrow> int \<Rightarrow> int \<Rightarrow> Task list" where
  "otherRows tbl columnId movedTaskId =
     filter (\<lambda>t. t_id t \<noteq> movedTaskId)
       (sort_key t_order (filter (\<lambda>t. t_columnId t = columnId) tbl))"

section \<open>Dense columns\<close>

text \<open>
  The orders of the active tasks of a column, in table order, and the property that they
  are the numbers 0, ..., N - 1, each once, for the N active tasks of the column.
\<close>

definition columnOrders :: "db \<Rightarrow> int \<Rightarrow> int list" where
  "columnOrders s columnId =
     map t_order (filter (\<lambda>t. t_columnId t = columnId \<and> t_deletedAt t = None) (tasks s))"

definition denseColumn :: "db \<Rightarrow> int \<Rightarrow> bool" where
  "denseColumn s columnId =
     (distinct (columnOrders s columnId)
      \<and> set (columnOrders s columnId) = {0..<int (length (columnOrders s columnId))})"

text \<open>
  What the loop of \<open>reorderTasksInColumn\<close> makes of one row: the updates for the ids of
  the list are applied in turn, with the indices counted from \<open>i\<close>.
\<close>

fun reorderedRow :: "int \<Rightarrow> int \<Rightarrow> int list \<Rightarrow> Task \<Rightarrow> Task" where
  "reorderedRow columnId i [] t = t"
| "reorderedRow columnId i (x # xs) t =
     reorderedRow columnId (i + 1) xs
       (if t_id t = x \<and> t_columnId t = columnId then t\<lparr>t_order := i\<rparr> else t)"

section \<open>A sample database\<close>

text \<open>
  Project 1 is owned by user 1 and has user 2 as a plain member; user 3 is no member.
  Its board 7 has the column 5 with the tasks A (id 11), B (id 12) and C (id 13) at the
  orders 0, 1 and 2; A is assigned to user 2.
\<close>

definition taskA :: Task where
  "taskA = \<lparr> t_id = 11, t_title = ''A'', t_projectId = 1, t_boardId = 7, t_columnId = 5,
             t_createdById = 1, t_assigneeId = Some 2, t_priority = MEDIUM, t_order = 0,
             t_deletedAt = None \<rparr>"

definition taskB :: Task where
  "taskB = \<lparr> t_id = 12, t_title = ''B'', t_projectId = 1, t_boardId = 7, t_columnId = 5,
             t_createdById = 1, t_assigneeId = None, t_priority = MEDIUM, t_order = 1,
             t_deletedAt = None \<rparr>"

definition taskC :: Task where
  "taskC = \<lparr> t_id = 13, t_title = ''C'', t_projectId = 1, t_boardId = 7, t_columnId = 5,
             t_createdById = 1, t_assigneeId = None, t_priority = MEDIUM, t_order = 2,
             t_deletedAt = None \<rparr>"

definition project1 :: Project where
  "project1 = \<lparr> p_id = 1, p_ownerId = 1, p_status = active \<rparr>"

definition sampleDb :: db where
  "sampleDb =
     \<lparr> projects = [project1],
       project_members =
         [\<lparr> pm_projectId = 1, pm_userId = 1, pm_role = ADMIN, pm_isActive = True, pm_leftAt = None \<rparr>,
          \<lparr> pm_projectId = 1, pm_userId = 2, pm_role = MEMBER, pm_isActive = True, pm_leftAt = None \<rparr>],
       kanban_boards = [\<lparr> b_id = 7, b_projectId = 1, b_isActive = True \<rparr>],
       kanban_columns = [\<lparr> c_id = 5, c_boardId = 7, c_isActive = True \<rparr>],
       tasks = [taskA, taskB, taskC],
       users = [\<lparr> u_id = 1, u_isActive = True, u_deletedAt = None \<rparr>,
                \<lparr> u_id = 2, u_isActive = True, u_deletedAt = None \<rparr>,
                \<lparr> u_id = 3, u_isActive = True, u_deletedAt = None \<rparr>],
       notifications =
         [\<lparr> n_userId = 2, n_projectId = Some 1, n_status = unread, n_archivedAt = None \<rparr>,
          \<lparr> n_userId = 2, n_projectId = Some 1, n_status = read, n_archivedAt = None \<rparr>],
       refresh_tokens = [\<lparr> rt_userId = 2, rt_isRevoked = False \<rparr>],
       sink = [] \<rparr>"

text \<open>The same database with task A alone in column 5, and two requests.\<close>

definition oneTaskDb :: db where
  "oneTaskDb = sampleDb\<lparr>tasks := [taskA]\<rparr>"

definition newTaskDto :: CreateTaskDto where
  "newTaskDto = \<lparr> cd_title = ''N'', cd_projectId = 1, cd_boardId = 7, cd_columnId = 5,
                  cd_assigneeId = None, cd_priority = None \<rparr>"

definition titleOnlyDto :: UpdateTaskDto where
  "titleOnlyDto = \<lparr> ud_title = Some ''x'', ud_columnId = None, ud_assigneeId = Undefined,
                    ud_priority = None \<rparr>"

text \<open>Two drag-and-drop requests for column 5.\<close>

definition moveToFrontDto :: MoveTaskDto where
  "moveToFrontDto = \<lparr> md_targetColumnId = 5, md_newOrder = Some 0 \<rparr>"

definition moveFarDto :: MoveTaskDto where
  "moveFarDto = \<lparr> md_targetColumnId = 5, md_newOrder = Some 5 \<rparr>"

text \<open>
  A database in which the board of column 5 has the id of its project, and a request that
  lists the tasks of the column in reverse.
\<close>

definition alignedDb :: db where
  "alignedDb =
     sampleDb\<lparr> kanban_boards := [\<lparr> b_id = 1, b_projectId = 1, b_isActive = True \<rparr>],
               kanban_columns := [\<lparr> c_id = 5, c_boardId = 1, c_isActive = True \<rparr>] \<rparr>"

definition reverseDto :: ReorderTasksDto where
  "reverseDto = \<lparr> rd_taskIds = [13, 12, 11] \<rparr>"

text \<open>
  The sample database with other memberships: the owner (user 1) has no membership row,
  user 2 is a plain member, user 4 is an active ADMIN, user 5 has an ADMIN row that is no
  longer active, and user 3 has no row. Task B as created by user 2.
\<close>

definition permissionDb :: db where
  "permissionDb =
     sampleDb\<lparr> project_members :=
         [\<lparr> pm_projectId = 1, pm_userId = 2, pm_role = MEMBER, pm_isActive = True, pm_leftAt = None \<rparr>,
          \<lparr> pm_projectId = 1, pm_userId = 4, pm_role = ADMIN, pm_isActive = True, pm_leftAt = None \<rparr>,
          \<lparr> pm_projectId = 1, pm_userId = 5, pm_role = ADMIN, pm_isActive = False, pm_leftAt = Some 7 \<rparr>] \<rparr>"

definition taskOfMember :: Task where
  "taskOfMember = taskB\<lparr>t_createdById := 2\<rparr>"

section \<open>Access control: the permission matrix\<close>

lemmas query_defs =
  findProject_def findActiveProject_def findActiveMember_def findMember_def
  findActiveColumn_def findActiveBoard_def findTask_def findUser_def ownsProject_def

lemmas sample_defs =
  sampleDb_def project1_def taskA_def taskB_def taskC_def oneTaskDb_def newTaskDto_def
  titleOnlyDto_def

text \<open>Looking a row up by a key that is distinct in the table finds that row.\<close>

lemma find_distinct_nth:
  assumes "distinct (map f xs)" "k < length xs"
  shows "find (\<lambda>r. f r = f (xs ! k)) xs = Some (xs ! k)"
proof -
  have "\<not> f (xs ! j) = f (xs ! k)" if "j < k" for j
  proof -
    from that assms have "j < length (map f xs)" "k < length (map f xs)" "j \<noteq> k"
      by simp_all
    with assms(1) have "map f xs ! j \<noteq> map f xs ! k"
      using nth_eq_iff_index_eq [of "map f xs" j k] by blast
    with that assms show ?thesis by simp
  qed
  with assms show ?thesis
    unfolding find_Some_iff by blast
qed

lemma find_distinct_mem:
  assumes "distinct (map f xs)" "x \<in> set xs"
  shows "find (\<lambda>r. f r = f x) xs = Some x"
proof -
  from assms(2) obtain k where "k < length xs" "xs ! k = x"
    by (auto simp: in_set_conv_nth)
  with find_distinct_nth [OF assms(1), of k] show ?thesis by simp
qed

lemma find_Some_mem: "find P xs = Some x \<Longrightarrow> x \<in> set xs"
  by (auto simp: find_Some_iff)

lemma find_Some_holds: "find P xs = Some x \<Longrightarrow> P x"
  by (auto simp: find_Some_iff)

text \<open>
  The rules of \<open>checkTaskPermission\<close> in terms of the queries it makes, and what the
  queries mean for the stored rows: the owner is the user stored in the project row, an
  admin has a stored active ADMIN membership row, a member has a stored active row.
\<close>

lemma checkTaskPermission_rules:
  "checkTaskPermission s task userId action \<longleftrightarrow>
      ownsProject s (t_projectId task) userId
    \<or> isProjectAdmin s (t_projectId task) userId
    \<or> (t_createdById task = userId \<and> action \<in> {ActUpdate, ActDelete})
    \<or> (t_assigneeId task = Some userId \<and> action \<in> {ActUpdate, ActComment})
    \<or> (findActiveMember s (t_projectId task) userId \<noteq> None \<and> action \<in> {ActRead, ActComment})"
  by (auto simp: checkTaskPermission_def isProjectAdmin_def Let_def split: option.splits)

lemma ownsProject_stored:
  assumes "distinct (map p_id (projects s))"
  shows "ownsProject s projectId userId \<longleftrightarrow>
         (\<exists>p \<in> set (projects s). p_id p = projectId \<and> p_ownerId p = userId)"
proof
  assume "ownsProject s projectId userId"
  then obtain p where p: "find (\<lambda>p. p_id p = projectId) (projects s) = Some p"
    and own: "p_ownerId p = userId"
    by (auto simp: ownsProject_def findProject_def split: option.splits)
  from find_Some_mem [OF p] find_Some_holds [OF p] own
  show "\<exists>p \<in> set (projects s). p_id p = projectId \<and> p_ownerId p = userId"
    by blast
next
  assume "\<exists>p \<in> set (projects s). p_id p = projectId \<and> p_ownerId p = userId"
  then obtain p where p: "p \<in> set (projects s)" "p_id p = projectId" "p_ownerId p = userId"
    by blast
  from find_distinct_mem [OF assms p(1)] p(2)
  have "find (\<lambda>r. p_id r = projectId) (projects s) = Some p"
    by simp
  with p(3) show "ownsProject s projectId userId"
    by (simp add: ownsProject_def findProject_def)
qed

lemma activeMember_stored:
  "findActiveMember s projectId userId \<noteq> None \<longleftrightarrow>
   (\<exists>m \<in> set (project_members s).
      pm_projectId m = projectId \<and> pm_userId m = userId \<and> pm_isActive m)"
  by (auto simp: findActiveMember_def find_None_iff)

lemma isProjectAdmin_stored:
  assumes uniform: "\<forall>m \<in> set (project_members s). \<forall>m' \<in> set (project_members s).
      pm_projectId m = pm_projectId m' \<and> pm_userId m = pm_userId m'
      \<and> pm_isActive m \<and> pm_isActive m' \<longrightarrow> pm_role m = pm_role m'"
  shows "isProjectAdmin s projectId userId \<longleftrightarrow>
         (\<exists>m \<in> set (project_members s).
            pm_projectId m = projectId \<and> pm_userId m = userId \<and> pm_isActive m
            \<and> pm_role m = ADMIN)"
proof
  assume "isProjectAdmin s projectId userId"
  then obtain m where m: "find (\<lambda>m. pm_projectId m = projectId \<and> pm_userId m = userId
        \<and> pm_isActive m) (project_members s) = Some m" and role: "pm_role m = ADMIN"
    by (auto simp: isProjectAdmin_def findActiveMember_def split: option.splits)
  from find_Some_mem [OF m] find_Some_holds [OF m] role
  show "\<exists>m \<in> set (project_members s).
            pm_projectId m = projectId \<and> pm_userId m = userId \<and> pm_isActive m
            \<and> pm_role m = ADMIN"
    by blast
next
  assume "\<exists>m \<in> set (project_members s).
            pm_projectId m = projectId \<and> pm_userId m = userId \<and> pm_isActive m
            \<and> pm_role m = ADMIN"
  then obtain m where m: "m \<in> set (project_members s)" "pm_projectId m = projectId"
      "pm_userId m = userId" "pm_isActive m" "pm_role m = ADMIN"
    by blast
  then have "findActiveMember s projectId userId \<noteq> None"
    unfolding activeMember_stored by blast
  then obtain m' where m': "find (\<lambda>m. pm_projectId m = projectId \<and> pm_userId m = userId
        \<and> pm_isActive m) (project_members s) = Some m'"
    by (auto simp: findActiveMember_def)
  from find_Some_mem [OF m'] find_Some_holds [OF m'] m uniform
  have "pm_role m' = ADMIN"
    by metis
  with m' show "isProjectAdmin s projectId userId"
    by (simp add: isProjectAdmin_def findActiveMember_def)
qed

text \<open>
  Claim C9. Let project ids be distinct and the active membership rows of one user in one
  project agree on the role. \<open>checkTaskPermission\<close> grants an action exactly when one of
  the rules applies, taken in the order: the user stored as owner of the task's project
  (every action), a user with a stored active ADMIN membership (every action), the creator
  (update and delete), the assignee (update and comment), a user with a stored active
  membership (read and comment); nobody else is granted anything. A user who is not the
  stored owner of the task's active project and has no active membership row in it gets
  Forbidden from \<open>getTaskById\<close>, and a plain member who is neither creator nor assignee of
  the task may read and comment and nothing else.
\<close>

theorem checkTaskPermission_matrix:
  assumes "distinct (map p_id (projects s))"
    and "\<forall>m \<in> set (project_members s). \<forall>m' \<in> set (project_members s).
      pm_projectId m = pm_projectId m' \<and> pm_userId m = pm_userId m'
      \<and> pm_isActive m \<and> pm_isActive m' \<longrightarrow> pm_role m = pm_role m'"
  shows "(checkTaskPermission s task userId action \<longleftrightarrow>
        (\<exists>p \<in> set (projects s). p_id p = t_projectId task \<and> p_ownerId p = userId)
      \<or> (\<exists>m \<in> set (project_members s).
            pm_projectId m = t_projectId task \<and> pm_userId m = userId \<and> pm_isActive m
            \<and> pm_role m = ADMIN)
      \<or> (t_createdById task = userId \<and> action \<in> {ActUpdate, ActDelete})
      \<or> (t_assigneeId task = Some userId \<and> action \<in> {ActUpdate, ActComment})
      \<or> ((\<exists>m \<in> set (project_members s).
              pm_projectId m = t_projectId task \<and> pm_userId m = userId \<and> pm_isActive m)
          \<and> action \<in> {ActRead, ActComment}))
    \<and> (distinct (map t_id (tasks s)) \<and> task \<in> set (tasks s)
         \<and> (\<exists>p \<in> set (projects s). p_id p = t_projectId task \<and> p_status p = active)
         \<and> (\<forall>p \<in> set (projects s). p_id p = t_projectId task \<longrightarrow> p_ownerId p \<noteq> userId)
         \<and> (\<forall>m \<in> set (project_members s).
               pm_projectId m = t_projectId task \<and> pm_userId m = userId \<longrightarrow> \<not> pm_isActive m)
       \<longrightarrow> getTaskById s (t_id task) userId =
             Inl (ForbiddenException ''You do not have access to this project''))
    \<and> ((\<forall>p \<in> set (projects s). p_id p = t_projectId task \<longrightarrow> p_ownerId p \<noteq> userId)
         \<and> (\<exists>m \<in> set (project_members s).
               pm_projectId m = t_projectId task \<and> pm_userId m = userId \<and> pm_isActive m
               \<and> pm_role m \<noteq> ADMIN)
         \<and> t_createdById task \<noteq> userId \<and> t_assigneeId task \<noteq> Some userId
       \<longrightarrow> (checkTaskPermission s task userId action \<longleftrightarrow> action \<in> {ActRead, ActComment}))"
proof (intro conjI impI)
  show rules: "checkTaskPermission s task userId action \<longleftrightarrow>
        (\<exists>p \<in> set (projects s). p_id p = t_projectId task \<and> p_ownerId p = userId)
      \<or> (\<exists>m \<in> set (project_members s).
            pm_projectId m = t_projectId task \<and> pm_userId m = userId \<and> pm_isActive m
            \<and> pm_role m = ADMIN)
      \<or> (t_createdById task = userId \<and> action \<in> {ActUpdate, ActDelete})
      \<or> (t_assigneeId task = Some userId \<and> action \<in> {ActUpdate, ActComment})
      \<or> ((\<exists>m \<in> set (project_members s).
              pm_projectId m = t_projectId task \<and> pm_userId m = userId \<and> pm_isActive m)
          \<and> action \<in> {ActRead, ActComment})"
    unfolding checkTaskPermission_rules ownsProject_stored [OF assms(1)]
      isProjectAdmin_stored [OF assms(2)] activeMember_stored ..
  assume plain: "(\<forall>p \<in> set (projects s). p_id p = t_projectId task \<longrightarrow> p_ownerId p \<noteq> userId)
         \<and> (\<exists>m \<in> set (project_members s).
               pm_projectId m = t_projectId task \<and> pm_userId m = userId \<and> pm_isActive m
               \<and> pm_role m \<noteq> ADMIN)
         \<and> t_createdById task \<noteq> userId \<and> t_assigneeId task \<noteq> Some userId"
  then obtain m where m: "m \<in> set (project_members s)" "pm_projectId m = t_projectId task"
      "pm_userId m = userId" "pm_isActive m" "pm_role m \<noteq> ADMIN"
    by blast
  have no_admin: "\<not> (\<exists>m \<in> set (project_members s).
            pm_projectId m = t_projectId task \<and> pm_userId m = userId \<and> pm_isActive m
            \<and> pm_role m = ADMIN)"
    using m assms(2) by metis
  have member: "\<exists>m \<in> set (project_members s).
      pm_projectId m = t_projectId task \<and> pm_userId m = userId \<and> pm_isActive m"
    using m by blast
  from plain no_admin member
  show "checkTaskPermission s task userId action \<longleftrightarrow> action \<in> {ActRead, ActComment}"
    unfolding rules by blast
next
  assume a: "distinct (map t_id (tasks s)) \<and> task \<in> set (tasks s)
         \<and> (\<exists>p \<in> set (projects s). p_id p = t_projectId task \<and> p_status p = active)
         \<and> (\<forall>p \<in> set (projects s). p_id p = t_projectId task \<longrightarrow> p_ownerId p \<noteq> userId)
         \<and> (\<forall>m \<in> set (project_members s).
               pm_projectId m = t_projectId task \<and> pm_userId m = userId \<longrightarrow> \<not> pm_isActive m)"
  then have "find (\<lambda>r. t_id r = t_id task) (tasks s) = Some task"
    by (intro find_distinct_mem) simp_all
  then have found: "findTask s (t_id task) = Some task"
    by (simp add: findTask_def)
  from a have "findActiveProject s (t_projectId task) \<noteq> None"
    unfolding findActiveProject_def find_None_iff by blast
  then obtain p where p: "find (\<lambda>p. p_id p = t_projectId task \<and> p_status p = active)
      (projects s) = Some p"
    by (auto simp: findActiveProject_def)
  from find_Some_mem [OF p] find_Some_holds [OF p] a have own: "p_ownerId p \<noteq> userId"
    by blast
  from a have none: "findActiveMember s (t_projectId task) userId = None"
    unfolding findActiveMember_def find_None_iff by blast
  from found p own none
  show "getTaskById s (t_id task) userId =
             Inl (ForbiddenException ''You do not have access to this project'')"
    by (simp add: getTaskById_def checkProjectAccess_def findActiveProject_def)
qed

lemmas permission_defs = permissionDb_def taskOfMember_def

text \<open>
  The matrix on stored rows: the owner without a membership row and the active ADMIN may
  do everything; the creator may update and delete, the assignee update and comment, the
  plain member read and comment; the user whose ADMIN row is inactive and the user without
  a row are denied and get Forbidden from \<open>getTaskById\<close>.
\<close>

theorem checkTaskPermission_matrix_witness:
  "checkTaskPermission permissionDb taskB 1 ActRead
   \<and> checkTaskPermission permissionDb taskB 1 ActUpdate
   \<and> checkTaskPermission permissionDb taskB 1 ActDelete
   \<and> checkTaskPermission permissionDb taskB 1 ActMove
   \<and> checkTaskPermission permissionDb taskB 1 ActComment
   \<and> checkTaskPermission permissionDb taskB 4 ActMove
   \<and> checkTaskPermission permissionDb taskB 4 ActDelete
   \<and> checkTaskPermission permissionDb taskOfMember 2 ActUpdate
   \<and> checkTaskPermission permissionDb taskOfMember 2 ActDelete
   \<and> \<not> checkTaskPermission permissionDb taskOfMember 2 ActMove
   \<and> checkTaskPermission permissionDb taskA 2 ActUpdate
   \<and> checkTaskPermission permissionDb taskA 2 ActComment
   \<and> \<not> checkTaskPermission permissionDb taskA 2 ActDelete
   \<and> checkTaskPermission permissionDb taskB 2 ActRead
   \<and> checkTaskPermission permissionDb taskB 2 ActComment
   \<and> \<not> checkTaskPermission permissionDb taskB 2 ActUpdate
   \<and> \<not> checkTaskPermission permissionDb taskB 2 ActDelete
   \<and> \<not> checkTaskPermission permissionDb taskB 2 ActMove
   \<and> \<not> checkTaskPermission permissionDb taskB 5 ActRead
   \<and> \<not> checkTaskPermission permissionDb taskB 5 ActMove
   \<and> \<not> checkTaskPermission permissionDb taskB 3 ActRead
   \<and> getTaskById permissionDb 12 3 =
       Inl (ForbiddenException ''You do not have access to this project'')
   \<and> getTaskById permissionDb 12 5 =
       Inl (ForbiddenException ''You do not have access to this project'')"
proof -
  have d: "distinct (map p_id (projects permissionDb))"
    by (simp add: permission_defs sample_defs)
  have u: "\<forall>m \<in> set (project_members permissionDb). \<forall>m' \<in> set (project_members permissionDb).
      pm_projectId m = pm_projectId m' \<and> pm_userId m = pm_userId m'
      \<and> pm_isActive m \<and> pm_isActive m' \<longrightarrow> pm_role m = pm_role m'"
    by (simp add: permission_defs sample_defs)
  note matrix = checkTaskPermission_matrix [OF d u, THEN conjunct1]
  note forbidden = checkTaskPermission_matrix [OF d u, THEN conjunct2, THEN conjunct1, rule_format]
  note plain = checkTaskPermission_matrix [OF d u, THEN conjunct2, THEN conjunct2, rule_format]
  have rows: "projects permissionDb = [project1]"
    "project_members permissionDb =
         [\<lparr> pm_projectId = 1, pm_userId = 2, pm_role = MEMBER, pm_isActive = True, pm_leftAt = None \<rparr>,
          \<lparr> pm_projectId = 1, pm_userId = 4, pm_role = ADMIN, pm_isActive = True, pm_leftAt = None \<rparr>,
          \<lparr> pm_projectId = 1, pm_userId = 5, pm_role = ADMIN, pm_isActive = False, pm_leftAt = Some 7 \<rparr>]"
    "tasks permissionDb = [taskA, taskB, taskC]"
    by (simp_all add: permissionDb_def sampleDb_def)
  have fields: "p_id project1 = 1" "p_ownerId project1 = 1" "p_status project1 = active"
    "t_id taskA = 11" "t_id taskB = 12" "t_id taskC = 13"
    "t_projectId taskA = 1" "t_projectId taskB = 1" "t_projectId taskOfMember = 1"
    "t_createdById taskA = 1" "t_createdById taskB = 1" "t_createdById taskOfMember = 2"
    "t_assigneeId taskA = Some 2" "t_assigneeId taskB = None" "t_assigneeId taskOfMember = None"
    by (simp_all add: sample_defs taskOfMember_def)
  have pre3: "distinct (map t_id (tasks permissionDb)) \<and> taskB \<in> set (tasks permissionDb)
         \<and> (\<exists>p \<in> set (projects permissionDb). p_id p = t_projectId taskB \<and> p_status p = active)
         \<and> (\<forall>p \<in> set (projects permissionDb). p_id p = t_projectId taskB \<longrightarrow> p_ownerId p \<noteq> 3)
         \<and> (\<forall>m \<in> set (project_members permissionDb).
               pm_projectId m = t_projectId taskB \<and> pm_userId m = 3 \<longrightarrow> \<not> pm_isActive m)"
    by (simp add: rows fields)
  have pre5: "distinct (map t_id (tasks permissionDb)) \<and> taskB \<in> set (tasks permissionDb)
         \<and> (\<exists>p \<in> set (projects permissionDb). p_id p = t_projectId taskB \<and> p_status p = active)
         \<and> (\<forall>p \<in> set (projects permissionDb). p_id p = t_projectId taskB \<longrightarrow> p_ownerId p \<noteq> 5)
         \<and> (\<forall>m \<in> set (project_members permissionDb).
               pm_projectId m = t_projectId taskB \<and> pm_userId m = 5 \<longrightarrow> \<not> pm_isActive m)"
    by (simp add: rows fields)
  have pre2: "(\<forall>p \<in> set (projects permissionDb). p_id p = t_projectId taskB \<longrightarrow> p_ownerId p \<noteq> 2)
         \<and> (\<exists>m \<in> set (project_members permissionDb).
               pm_projectId m = t_projectId taskB \<and> pm_userId m = 2 \<and> pm_isActive m
               \<and> pm_role m \<noteq> ADMIN)
         \<and> t_createdById taskB \<noteq> 2 \<and> t_assigneeId taskB \<noteq> Some 2"
    by (simp add: rows fields)
  have f3: "getTaskById permissionDb 12 3 =
       Inl (ForbiddenException ''You do not have access to this project'')"
    using forbidden [OF pre3] by (simp add: fields)
  have f5: "getTaskById permissionDb 12 5 =
       Inl (ForbiddenException ''You do not have access to this project'')"
    using forbidden [OF pre5] by (simp add: fields)
  have member: "checkTaskPermission permissionDb taskB 2 ActRead"
    "checkTaskPermission permissionDb taskB 2 ActComment"
    "\<not> checkTaskPermission permissionDb taskB 2 ActUpdate"
    "\<not> checkTaskPermission permissionDb taskB 2 ActDelete"
    "\<not> checkTaskPermission permissionDb taskB 2 ActMove"
    by (simp_all add: plain [OF pre2])
  have others: "checkTaskPermission permissionDb taskB 1 ActRead"
    "checkTaskPermission permissionDb taskB 1 ActUpdate"
    "checkTaskPermission permissionDb taskB 1 ActDelete"
    "checkTaskPermission permissionDb taskB 1 ActMove"
    "checkTaskPermission permissionDb taskB 1 ActComment"
    "checkTaskPermission permissionDb taskB 4 ActMove"
    "checkTaskPermission permissionDb taskB 4 ActDelete"
    "checkTaskPermission permissionDb taskOfMember 2 ActUpdate"
    "checkTaskPermission permissionDb taskOfMember 2 ActDelete"
    "\<not> checkTaskPermission permissionDb taskOfMember 2 ActMove"
    "checkTaskPermission permissionDb taskA 2 ActUpdate"
    "checkTaskPermission permissionDb taskA 2 ActComment"
    "\<not> checkTaskPermission permissionDb taskA 2 ActDelete"
    "\<not> checkTaskPermission permissionDb taskB 5 ActRead"
    "\<not> checkTaskPermission permissionDb taskB 5 ActMove"
    "\<not> checkTaskPermission permissionDb taskB 3 ActRead"
    by (simp_all add: matrix rows fields)
  from member others f3 f5 show ?thesis
    by (intro conjI)
qed

section \<open>Project membership\<close>

lemma find_append_Some: "find P xs = Some x \<Longrightarrow> find P (xs @ ys) = Some x"
  by (induction xs) (auto split: if_splits)

lemma find_append_None: "find P xs = None \<Longrightarrow> find P (xs @ ys) = find P ys"
  by (induction xs) (auto split: if_splits)

text \<open>
  Claim C8. When the acting user passes the owner-or-admin check and the target user
  exists, \<open>addProjectMember\<close> fails with Conflict as soon as any membership row of the
  pair (project, user) is stored, active or not, and leaves the database as it was. In
  particular a second call right after a successful one fails with Conflict.
\<close>

theorem addProjectMember_conflict:
  "(findProjectById s projectId currentUserId = Inr project
      \<and> (p_ownerId project = currentUserId \<or> isProjectAdmin s projectId currentUserId)
      \<and> findUser s memberUserId \<noteq> None
      \<and> (\<exists>m \<in> set (project_members s). pm_projectId m = projectId \<and> pm_userId m = memberUserId)
    \<longrightarrow> addProjectMember s projectId memberUserId role currentUserId =
          (Inl (ConflictException ''User is already a member of this project''), s))
   \<and> (addProjectMember s projectId memberUserId role currentUserId = (Inr msg, s1)
    \<longrightarrow> addProjectMember s1 projectId memberUserId role2 currentUserId =
          (Inl (ConflictException ''User is already a member of this project''), s1))"
proof (intro conjI impI)
  assume a: "findProjectById s projectId currentUserId = Inr project
      \<and> (p_ownerId project = currentUserId \<or> isProjectAdmin s projectId currentUserId)
      \<and> findUser s memberUserId \<noteq> None
      \<and> (\<exists>m \<in> set (project_members s). pm_projectId m = projectId \<and> pm_userId m = memberUserId)"
  then have "findMember s projectId memberUserId \<noteq> None"
    by (auto simp: findMember_def find_None_iff)
  with a show "addProjectMember s projectId memberUserId role currentUserId =
          (Inl (ConflictException ''User is already a member of this project''), s)"
    by (auto simp: addProjectMember_def Let_def)
next
  assume ok: "addProjectMember s projectId memberUserId role currentUserId = (Inr msg, s1)"
  let ?row = "\<lparr> pm_projectId = projectId, pm_userId = memberUserId, pm_role = role,
                 pm_isActive = True, pm_leftAt = None \<rparr>"
  from ok obtain project user where
    proj: "findProjectById s projectId currentUserId = Inr project" and
    auth: "p_ownerId project = currentUserId \<or> isProjectAdmin s projectId currentUserId" and
    user: "findUser s memberUserId = Some user" and
    s1: "s1 = s\<lparr>project_members := project_members s @ [?row],
               sink := sink s @ [ProjectMemberAdded memberUserId projectId currentUserId role]\<rparr>"
    by (auto simp: addProjectMember_def Let_def split: sum.splits option.splits if_splits)
  have projects1: "projects s1 = projects s" and users1: "users s1 = users s"
    and members1: "project_members s1 = project_members s @ [?row]"
    by (simp_all add: s1)
  have act: "findActiveMember s projectId u \<noteq> None \<Longrightarrow>
             findActiveMember s1 projectId u = findActiveMember s projectId u" for u
    by (auto simp: findActiveMember_def members1 find_append_Some)
  from proj have fap: "findActiveProject s projectId = Some project"
    and acc: "projects_checkProjectAccess s (p_id project) currentUserId"
    by (auto simp: findProjectById_def split: option.splits if_splits)
  from fap have pid: "p_id project = projectId"
    by (auto simp: findActiveProject_def find_Some_iff)
  have own1: "ownsProject s1 projectId u = ownsProject s projectId u" for u
    by (simp add: ownsProject_def findProject_def projects1)
  have acc1: "projects_checkProjectAccess s1 projectId currentUserId"
    using acc act [of currentUserId]
    by (auto simp: projects_checkProjectAccess_def own1 pid split: if_splits)
  have proj1: "findProjectById s1 projectId currentUserId = Inr project"
    using fap acc1 by (simp add: findProjectById_def findActiveProject_def projects1 pid)
  have auth1: "p_ownerId project = currentUserId \<or> isProjectAdmin s1 projectId currentUserId"
    using auth act [of currentUserId]
    by (auto simp: isProjectAdmin_def split: option.splits)
  have user1: "findUser s1 memberUserId \<noteq> None"
    using user by (simp add: findUser_def users1)
  have "?row \<in> set (project_members s1)"
    by (simp add: members1)
  then have "findMember s1 projectId memberUserId \<noteq> None"
    unfolding findMember_def find_None_iff by (intro notI) force
  with proj1 auth1 user1
  show "addProjectMember s1 projectId memberUserId role2 currentUserId =
          (Inl (ConflictException ''User is already a member of this project''), s1)"
    by (auto simp: addProjectMember_def Let_def)
qed

theorem addProjectMember_conflict_witness:
  "addProjectMember sampleDb 1 2 ADMIN 1 =
     (Inl (ConflictException ''User is already a member of this project''), sampleDb)
   \<and> fst (addProjectMember sampleDb 1 3 MEMBER 1) = Inr ''Member added successfully''
   \<and> addProjectMember (snd (addProjectMember sampleDb 1 3 MEMBER 1)) 1 3 ADMIN 1 =
     (Inl (ConflictException ''User is already a member of this project''),
      snd (addProjectMember sampleDb 1 3 MEMBER 1))"
proof -
  have pre: "findProjectById sampleDb 1 1 = Inr project1
      \<and> (p_ownerId project1 = 1 \<or> isProjectAdmin sampleDb 1 1)
      \<and> findUser sampleDb 2 \<noteq> None
      \<and> (\<exists>m \<in> set (project_members sampleDb). pm_projectId m = 1 \<and> pm_userId m = 2)"
    by (simp add: findProjectById_def projects_checkProjectAccess_def query_defs sample_defs)
  have okfst: "fst (addProjectMember sampleDb 1 3 MEMBER 1) = Inr ''Member added successfully''"
    by (simp add: addProjectMember_def findProjectById_def projects_checkProjectAccess_def
          isProjectAdmin_def query_defs sample_defs)
  have ok: "addProjectMember sampleDb 1 3 MEMBER 1 =
      (Inr ''Member added successfully'', snd (addProjectMember sampleDb 1 3 MEMBER 1))"
    by (rule prod_eqI) (simp_all add: okfst)
  note first = addProjectMember_conflict [where s = sampleDb and projectId = 1
      and currentUserId = 1 and project = project1 and memberUserId = 2 and role = ADMIN,
      THEN conjunct1, rule_format, OF pre]
  note second = addProjectMember_conflict [where s = sampleDb and projectId = 1
      and currentUserId = 1 and memberUserId = 3 and role = MEMBER and ?role2.0 = ADMIN,
      THEN conjunct2, rule_format, OF ok]
  show ?thesis
    by (intro conjI) (rule first, rule okfst, rule second)
qed

text \<open>
  Claim C10. For an active project, an acting owner or admin and a target other than the
  owner, \<open>removeProjectMember\<close> returns the message \<open>Member removed successfully\<close> and
  reports a member-removed notification whatever membership rows are stored; when the
  target has no active membership row in the project (none at all, or inactive ones only)
  no row of the database changes.
\<close>

theorem removeProjectMember_absent:
  "findProjectById s projectId currentUserId = Inr project
     \<and> (p_ownerId project = currentUserId \<or> isProjectAdmin s projectId currentUserId)
     \<and> p_ownerId project \<noteq> memberUserId
   \<longrightarrow> fst (removeProjectMember s projectId memberUserId currentUserId) =
         Inr ''Member removed successfully''
     \<and> sink (snd (removeProjectMember s projectId memberUserId currentUserId)) =
         sink s @ [ProjectMemberRemoved memberUserId projectId currentUserId]
     \<and> ((\<forall>m \<in> set (project_members s).
            pm_projectId m = projectId \<and> pm_userId m = memberUserId \<longrightarrow> \<not> pm_isActive m)
        \<longrightarrow> snd (removeProjectMember s projectId memberUserId currentUserId) =
              s\<lparr>sink := sink s @ [ProjectMemberRemoved memberUserId projectId currentUserId]\<rparr>)"
proof (intro impI)
  assume a: "findProjectById s projectId currentUserId = Inr project
     \<and> (p_ownerId project = currentUserId \<or> isProjectAdmin s projectId currentUserId)
     \<and> p_ownerId project \<noteq> memberUserId"
  have same: "map (\<lambda>m. if pm_projectId m = projectId \<and> pm_userId m = memberUserId
                     then m\<lparr>pm_isActive := False\<rparr> else m) (project_members s) = project_members s"
    if "\<forall>m \<in> set (project_members s).
            pm_projectId m = projectId \<and> pm_userId m = memberUserId \<longrightarrow> \<not> pm_isActive m"
    using that by (intro map_idI) auto
  from a show "fst (removeProjectMember s projectId memberUserId currentUserId) =
         Inr ''Member removed successfully''
     \<and> sink (snd (removeProjectMember s projectId memberUserId currentUserId)) =
         sink s @ [ProjectMemberRemoved memberUserId projectId currentUserId]
     \<and> ((\<forall>m \<in> set (project_members s).
            pm_projectId m = projectId \<and> pm_userId m = memberUserId \<longrightarrow> \<not> pm_isActive m)
        \<longrightarrow> snd (removeProjectMember s projectId memberUserId currentUserId) =
              s\<lparr>sink := sink s @ [ProjectMemberRemoved memberUserId projectId currentUserId]\<rparr>)"
    using same by (auto simp: removeProjectMember_def Let_def)
qed

theorem removeProjectMember_absent_witness:
  "fst (removeProjectMember sampleDb 1 3 1) = Inr ''Member removed successfully''
   \<and> snd (removeProjectMember sampleDb 1 3 1) = sampleDb\<lparr>sink := [ProjectMemberRemoved 3 1 1]\<rparr>"
proof -
  have pre: "findProjectById sampleDb 1 1 = Inr project1
     \<and> (p_ownerId project1 = 1 \<or> isProjectAdmin sampleDb 1 1)
     \<and> p_ownerId project1 \<noteq> 3"
    by (simp add: findProjectById_def projects_checkProjectAccess_def query_defs sample_defs)
  have absent: "\<forall>m \<in> set (project_members sampleDb).
            pm_projectId m = 1 \<and> pm_userId m = 3 \<longrightarrow> \<not> pm_isActive m"
    by (simp add: sample_defs)
  have "sink sampleDb = []"
    by (simp add: sample_defs)
  then show ?thesis
    using pre absent
      removeProjectMember_absent [where s = sampleDb and projectId = 1 and currentUserId = 1
        and project = project1 and memberUserId = 3]
    by simp
qed

section \<open>Evaluating the task operations\<close>

lemmas access_defs =
  checkProjectAccess_def checkTaskPermission_def getTaskById_def validateColumnAccess_def
  validateTaskAccess_def findProjectById_def projects_checkProjectAccess_def isProjectAdmin_def

text \<open>
  What \<open>createTask\<close> stores: the creator is the acting user, the priority defaults to
  MEDIUM, and the order is one above the largest order of the column unless that largest
  order is 0 or the column is empty, when it is 0.
\<close>

lemma createTask_order:
  "createTask s dto userId = (Inr task, s1) \<Longrightarrow>
   t_order task = (case maxOrder (tasks s) (cd_columnId dto) of
                     None \<Rightarrow> 0 | Some m \<Rightarrow> if m = 0 then 0 else m + 1)
   \<and> t_createdById task = userId
   \<and> t_priority task = (case cd_priority dto of None \<Rightarrow> MEDIUM | Some p \<Rightarrow> p)"
  by (auto simp: createTask_def nextOrder_def Let_def split: sum.splits option.splits)

text \<open>
  Claim C3. The order of a created task is meant to be the largest order of the column
  plus one. With task A alone in column 5 at order 0 the largest order is 0, and the new
  task is stored with order 0 as well, so the column holds two tasks of order 0.
\<close>

theorem createTask_after_order_zero:
  "maxOrder (tasks oneTaskDb) 5 = Some 0
   \<and> map_sum id t_order (fst (createTask oneTaskDb newTaskDto 1)) = Inr 0
   \<and> map t_order (filter (\<lambda>t. t_columnId t = 5) (tasks (snd (createTask oneTaskDb newTaskDto 1)))) = [0, 0]"
  by (simp add: createTask_def access_defs query_defs sample_defs maxOrder_def nextOrder_def
        nextId_def saveTask_def Let_def)

text \<open>
  Claim C4. Column 5 lies on board 7 of project 1, which user 1 owns. \<open>getColumnTasks\<close>
  hands the id of the board to the project check, finds no project 7 and fails with
  \<open>Project not found\<close> although the user has access to the owning project.
\<close>

theorem getColumnTasks_takes_board_for_project:
  "findActiveColumn sampleDb 5 = Some \<lparr> c_id = 5, c_boardId = 7, c_isActive = True \<rparr>
   \<and> findActiveBoard sampleDb 7 1 = Some \<lparr> b_id = 7, b_projectId = 1, b_isActive = True \<rparr>
   \<and> checkProjectAccess sampleDb 1 1 = Inr ()
   \<and> getColumnTasks sampleDb 5 1 = Inl (NotFoundException ''Project not found'')"
  by (simp add: getColumnTasks_def access_defs query_defs sample_defs)

text \<open>
  The notifications of a successful \<open>updateTask\<close>: none when the stored and the
  requested assignee are strictly equal, otherwise at most an unassigned one for the old
  assignee and an assigned one for the new assignee, each unless it is the acting user.
  A request without the field counts as a different assignee.
\<close>

lemma updateTask_sink:
  assumes "updateTask s taskId dto userId = (Inr saved, s')"
  shows "\<exists>task. findTask s taskId = Some task \<and>
     sink s' = sink s
       @ (if strictNe (t_assigneeId task) (ud_assigneeId dto)
          then (case t_assigneeId task of
                  Some old \<Rightarrow> if old \<noteq> 0 \<and> old \<noteq> userId
                              then [TaskUnassigned old (t_id task) userId] else []
                | None \<Rightarrow> [])
             @ (case ud_assigneeId dto of
                  JsNum new \<Rightarrow> if new \<noteq> 0 \<and> new \<noteq> userId
                               then [TaskAssigned new (t_id task) userId] else []
                | _ \<Rightarrow> [])
          else [])"
proof -
  from assms obtain task where task: "getTaskById s taskId userId = Inr task"
    by (auto simp: updateTask_def split: sum.splits)
  then have found: "findTask s taskId = Some task"
    by (auto simp: getTaskById_def split: option.splits sum.splits)
  from assms task have perm: "checkTaskPermission s task userId ActUpdate"
    by (auto simp: updateTask_def split: if_splits)
  from assms task perm have "sink s' = sink s
       @ (if strictNe (t_assigneeId task) (ud_assigneeId dto)
          then (case t_assigneeId task of
                  Some old \<Rightarrow> if old \<noteq> 0 \<and> old \<noteq> userId
                              then [TaskUnassigned old (t_id task) userId] else []
                | None \<Rightarrow> [])
             @ (case ud_assigneeId dto of
                  JsNum new \<Rightarrow> if new \<noteq> 0 \<and> new \<noteq> userId
                               then [TaskAssigned new (t_id task) userId] else []
                | _ \<Rightarrow> [])
          else [])"
    by (auto simp: updateTask_def Let_def split: sum.splits option.splits JsNumber.splits if_splits)
  with found show ?thesis by blast
qed

text \<open>
  Claim C7. A request that carries a title and no assignee leaves the assignee of task A
  (user 2) as it is, and yet \<open>updateTask\<close> reports an unassigned notification to user 2.
\<close>

theorem updateTask_title_only_notifies:
  "ud_assigneeId titleOnlyDto = Undefined
   \<and> map_sum id t_assigneeId (fst (updateTask sampleDb 11 titleOnlyDto 1)) = Inr (Some 2)
   \<and> map t_assigneeId (tasks (snd (updateTask sampleDb 11 titleOnlyDto 1))) = map t_assigneeId (tasks sampleDb)
   \<and> sink (snd (updateTask sampleDb 11 titleOnlyDto 1)) = [TaskUnassigned 2 11 1]"
  by (simp add: updateTask_def access_defs query_defs sample_defs assignDto_def saveTask_def Let_def)

section \<open>Deleting projects and users\<close>

text \<open>The legacy method of the cascading service variant is the soft delete itself.\<close>

lemma deleteProject_legacy_is_soft:
  "deleteProject_legacy s now ident userId = softDeleteProject s now ident userId"
  by (simp add: deleteProject_legacy_def)

text \<open>
  What a successful \<open>softDeleteProject\<close> leaves in the tables of tasks and columns: the
  criteria \<open>deletedAt: null\<close> and \<open>boardId: boardIds\<close> match no row.
\<close>

lemma softDeleteProject_tasks_columns:
  "tasks (snd (softDeleteProject s now ident userId)) = tasks s
   \<and> kanban_columns (snd (softDeleteProject s now ident userId)) = kanban_columns s"
  by (simp add: softDeleteProject_def Let_def criterionNull_def criterionArray_def
        split: sum.splits)

text \<open>
  Claim C5. The legacy \<open>deleteProject\<close> forwards to \<open>softDeleteProject\<close>, so the two
  have the same effect. On project 1 of the sample database, called by its owner, that
  effect is: the project is marked deleted, both memberships are deactivated, the board
  is deactivated and the unread project notification is archived; but the column of the
  board stays active and none of the three tasks gets a deletion time, which the cascade
  is meant to set.
\<close>

theorem deleteProject_cascade_misses_tasks_and_columns:
  "deleteProject_legacy sampleDb 99 1 1 = softDeleteProject sampleDb 99 1 1
   \<and> fst (deleteProject_legacy sampleDb 99 1 1) =
       Inr ''Project and all related data soft deleted successfully''
   \<and> map p_status (projects (snd (deleteProject_legacy sampleDb 99 1 1))) = [deleted]
   \<and> map pm_isActive (project_members (snd (deleteProject_legacy sampleDb 99 1 1))) =
       [False, False]
   \<and> map b_isActive (kanban_boards (snd (deleteProject_legacy sampleDb 99 1 1))) = [False]
   \<and> map n_status (notifications (snd (deleteProject_legacy sampleDb 99 1 1))) =
       [archived, read]
   \<and> map c_boardId (kanban_columns sampleDb) = [7]
   \<and> map b_id (kanban_boards sampleDb) = [7]
   \<and> map c_isActive (kanban_columns (snd (deleteProject_legacy sampleDb 99 1 1))) = [True]
   \<and> map t_projectId (tasks sampleDb) = [1, 1, 1]
   \<and> map t_deletedAt (tasks (snd (deleteProject_legacy sampleDb 99 1 1))) =
       [None, None, None]"
  by (simp add: deleteProject_legacy_def softDeleteProject_def access_defs query_defs
        sample_defs saveProject_def criterionNull_def criterionArray_def Let_def)

text \<open>
  The older \<open>deleteProject\<close> of projects.service.ts, which has no cascade, writes to the
  projects table only.
\<close>

lemma deleteProject_frame:
  "project_members (snd (deleteProject s ident userId)) = project_members s
   \<and> kanban_boards (snd (deleteProject s ident userId)) = kanban_boards s
   \<and> kanban_columns (snd (deleteProject s ident userId)) = kanban_columns s
   \<and> tasks (snd (deleteProject s ident userId)) = tasks s
   \<and> notifications (snd (deleteProject s ident userId)) = notifications s"
  by (simp add: deleteProject_def split: sum.splits)

lemma saveUser_found:
  "findUser s userId = Some user \<Longrightarrow>
   saveUser (user\<lparr>u_deletedAt := d, u_isActive := a\<rparr>) (users s) =
   map (\<lambda>u. if u_id u = userId then user\<lparr>u_deletedAt := d, u_isActive := a\<rparr> else u) (users s)"
  by (auto simp: saveUser_def findUser_def find_Some_iff)

text \<open>
  Claim C6, as stated, fails on a read notification: user 2 has an unread and a read
  notification, and after \<open>softDeleteUser\<close> the read one is still read.
\<close>

theorem softDeleteUser_read_notification_counterexample:
  "fst (softDeleteUser sampleDb 99 2 1) = Inr ''User and all related data soft deleted successfully''
   \<and> map n_userId (notifications sampleDb) = [2, 2]
   \<and> map n_status (notifications sampleDb) = [unread, read]
   \<and> map n_status (notifications (snd (softDeleteUser sampleDb 99 2 1))) = [archived, read]"
  by (simp add: softDeleteUser_def query_defs sample_defs saveUser_def Let_def)

lemma softDeleteUser_ok:
  assumes "userId \<noteq> currentUserId" "findUser s userId = Some user"
  shows "fst (softDeleteUser s now userId currentUserId) =
           Inr ''User and all related data soft deleted successfully''"
    and "users (snd (softDeleteUser s now userId currentUserId)) =
          map (\<lambda>u. if u_id u = userId then user\<lparr>u_deletedAt := Some now, u_isActive := False\<rparr>
                    else u) (users s)"
    and "projects (snd (softDeleteUser s now userId currentUserId)) =
          map (\<lambda>p. if p_ownerId p = userId \<and> p_status p = active
                    then p\<lparr>p_status := deleted\<rparr> else p) (projects s)"
    and "project_members (snd (softDeleteUser s now userId currentUserId)) =
          map (\<lambda>m. if pm_userId m = userId \<and> pm_isActive m
                    then m\<lparr>pm_isActive := False, pm_leftAt := Some now\<rparr> else m)
            (project_members s)"
    and "notifications (snd (softDeleteUser s now userId currentUserId)) =
          map (\<lambda>n. if n_userId n = userId \<and> n_status n = unread
                    then n\<lparr>n_status := archived, n_archivedAt := Some now\<rparr> else n)
            (notifications s)"
    and "refresh_tokens (snd (softDeleteUser s now userId currentUserId)) =
          map (\<lambda>r. if rt_userId r = userId \<and> \<not> rt_isRevoked r
                    then r\<lparr>rt_isRevoked := True\<rparr> else r) (refresh_tokens s)"
    and "kanban_boards (snd (softDeleteUser s now userId currentUserId)) = kanban_boards s"
    and "kanban_columns (snd (softDeleteUser s now userId currentUserId)) = kanban_columns s"
    and "sink (snd (softDeleteUser s now userId currentUserId)) = sink s"
  using assms
  by (simp_all add: softDeleteUser_def Let_def saveUser_found)

text \<open>
  Claim C6, amended. For an existing user deleted by another user, \<open>softDeleteUser\<close>
  succeeds and leaves: the user inactive with the deletion time set; every active project
  the user owns deleted; every active membership of the user inactive with the leaving
  time set; every unread notification of the user archived (read and archived ones keep
  their status); every unrevoked refresh token of the user revoked. The other rows of
  these tables, and the boards, columns and reported notifications, are unchanged. The
  tasks of the user are not part of the statement.
\<close>

theorem softDeleteUser_cascade:
  "userId \<noteq> currentUserId \<and> findUser s userId = Some user \<longrightarrow>
   fst (softDeleteUser s now userId currentUserId) =
     Inr ''User and all related data soft deleted successfully''
   \<and> users (snd (softDeleteUser s now userId currentUserId)) =
       map (\<lambda>u. if u_id u = userId then user\<lparr>u_deletedAt := Some now, u_isActive := False\<rparr>
                 else u) (users s)
   \<and> projects (snd (softDeleteUser s now userId currentUserId)) =
       map (\<lambda>p. if p_ownerId p = userId \<and> p_status p = active
                 then p\<lparr>p_status := deleted\<rparr> else p) (projects s)
   \<and> project_members (snd (softDeleteUser s now userId currentUserId)) =
       map (\<lambda>m. if pm_userId m = userId \<and> pm_isActive m
                 then m\<lparr>pm_isActive := False, pm_leftAt := Some now\<rparr> else m)
         (project_members s)
   \<and> notifications (snd (softDeleteUser s now userId currentUserId)) =
       map (\<lambda>n. if n_userId n = userId \<and> n_status n = unread
                 then n\<lparr>n_status := archived, n_archivedAt := Some now\<rparr> else n)
         (notifications s)
   \<and> refresh_tokens (snd (softDeleteUser s now userId currentUserId)) =
       map (\<lambda>r. if rt_userId r = userId \<and> \<not> rt_isRevoked r
                 then r\<lparr>rt_isRevoked := True\<rparr> else r) (refresh_tokens s)
   \<and> kanban_boards (snd (softDeleteUser s now userId currentUserId)) = kanban_boards s
   \<and> kanban_columns (snd (softDeleteUser s now userId currentUserId)) = kanban_columns s
   \<and> sink (snd (softDeleteUser s now userId currentUserId)) = sink s"
proof (intro impI)
  assume "userId \<noteq> currentUserId \<and> findUser s userId = Some user"
  then have ne: "userId \<noteq> currentUserId" and found: "findUser s userId = Some user"
    by simp_all
  note facts = softDeleteUser_ok [OF ne found]
  show "fst (softDeleteUser s now userId currentUserId) =
     Inr ''User and all related data soft deleted successfully''
   \<and> users (snd (softDeleteUser s now userId currentUserId)) =
       map (\<lambda>u. if u_id u = userId then user\<lparr>u_deletedAt := Some now, u_isActive := False\<rparr>
                 else u) (users s)
   \<and> projects (snd (softDeleteUser s now userId currentUserId)) =
       map (\<lambda>p. if p_ownerId p = userId \<and> p_status p = active
                 then p\<lparr>p_status := deleted\<rparr> else p) (projects s)
   \<and> project_members (snd (softDeleteUser s now userId currentUserId)) =
       map (\<lambda>m. if pm_userId m = userId \<and> pm_isActive m
                 then m\<lparr>pm_isActive := False, pm_leftAt := Some now\<rparr> else m)
         (project_members s)
   \<and> notifications (snd (softDeleteUser s now userId currentUserId)) =
       map (\<lambda>n. if n_userId n = userId \<and> n_status n = unread
                 then n\<lparr>n_status := archived, n_archivedAt := Some now\<rparr> else n)
         (notifications s)
   \<and> refresh_tokens (snd (softDeleteUser s now userId currentUserId)) =
       map (\<lambda>r. if rt_userId r = userId \<and> \<not> rt_isRevoked r
                 then r\<lparr>rt_isRevoked := True\<rparr> else r) (refresh_tokens s)
   \<and> kanban_boards (snd (softDeleteUser s now userId currentUserId)) = kanban_boards s
   \<and> kanban_columns (snd (softDeleteUser s now userId currentUserId)) = kanban_columns s
   \<and> sink (snd (softDeleteUser s now userId currentUserId)) = sink s"
    by (intro conjI) (rule facts)+
qed

theorem softDeleteUser_cascade_witness:
  "fst (softDeleteUser sampleDb 99 2 1) =
     Inr ''User and all related data soft deleted successfully''
   \<and> map u_isActive (users (snd (softDeleteUser sampleDb 99 2 1))) = [True, False, True]
   \<and> map u_deletedAt (users (snd (softDeleteUser sampleDb 99 2 1))) = [None, Some 99, None]
   \<and> map pm_isActive (project_members (snd (softDeleteUser sampleDb 99 2 1))) = [True, False]
   \<and> map n_status (notifications (snd (softDeleteUser sampleDb 99 2 1))) = [archived, read]
   \<and> map rt_isRevoked (refresh_tokens (snd (softDeleteUser sampleDb 99 2 1))) = [True]"
proof -
  have pre: "(2::int) \<noteq> 1
      \<and> findUser sampleDb 2 = Some \<lparr> u_id = 2, u_isActive = True, u_deletedAt = None \<rparr>"
    by (simp add: query_defs sample_defs)
  note facts = softDeleteUser_cascade [where s = sampleDb and userId = 2 and currentUserId = 1
      and now = 99, rule_format, OF pre]
  have "users sampleDb = [\<lparr> u_id = 1, u_isActive = True, u_deletedAt = None \<rparr>,
                \<lparr> u_id = 2, u_isActive = True, u_deletedAt = None \<rparr>,
                \<lparr> u_id = 3, u_isActive = True, u_deletedAt = None \<rparr>]"
    and "project_members sampleDb =
         [\<lparr> pm_projectId = 1, pm_userId = 1, pm_role = ADMIN, pm_isActive = True, pm_leftAt = None \<rparr>,
          \<lparr> pm_projectId = 1, pm_userId = 2, pm_role = MEMBER, pm_isActive = True, pm_leftAt = None \<rparr>]"
    and "notifications sampleDb =
         [\<lparr> n_userId = 2, n_projectId = Some 1, n_status = unread, n_archivedAt = None \<rparr>,
          \<lparr> n_userId = 2, n_projectId = Some 1, n_status = read, n_archivedAt = None \<rparr>]"
    and "refresh_tokens sampleDb = [\<lparr> rt_userId = 2, rt_isRevoked = False \<rparr>]"
    by (simp_all add: sampleDb_def)
  with facts show ?thesis
    by simp
qed

section \<open>Moving a task to an explicit position\<close>

lemma saveTask_replace:
  "t_id u \<in> set (map t_id tbl) \<Longrightarrow>
   saveTask u tbl = map (\<lambda>r. if t_id r = t_id u then u else r) tbl"
  by (simp add: saveTask_def)

lemma saveTask_ids:
  "t_id u \<in> set (map t_id tbl) \<Longrightarrow> map t_id (saveTask u tbl) = map t_id tbl"
  by (simp add: saveTask_replace cong: map_cong)

lemma find_replace:
  "find (\<lambda>r. t_id r = x) (map (\<lambda>r. if t_id r = t_id u then u else r) tbl) =
     (if x = t_id u then (if t_id u \<in> set (map t_id tbl) then Some u else None)
      else find (\<lambda>r. t_id r = x) tbl)"
  by (induction tbl) auto

lemma find_saveTask:
  "t_id u \<in> set (map t_id tbl) \<Longrightarrow>
   find (\<lambda>r. t_id r = x) (saveTask u tbl) =
     (if x = t_id u then Some u else find (\<lambda>r. t_id r = x) tbl)"
  by (simp only: saveTask_replace find_replace if_True)

lemma mset_replace:
  "distinct (map t_id tbl) \<Longrightarrow> t_id u \<in> set (map t_id tbl) \<Longrightarrow>
   mset (map (\<lambda>r. if t_id r = t_id u then u else r) tbl) =
     add_mset u (mset (filter (\<lambda>r. t_id r \<noteq> t_id u) tbl))"
proof (induction tbl)
  case Nil
  then show ?case by simp
next
  case (Cons r tbl)
  show ?case
  proof (cases "t_id r = t_id u")
    case True
    with Cons.prems have fresh: "\<forall>r \<in> set tbl. t_id r \<noteq> t_id u"
      by (force simp: image_iff)
    then have "map (\<lambda>r. if t_id r = t_id u then u else r) tbl = tbl"
      by (intro map_idI) simp
    moreover from fresh have "filter (\<lambda>r. t_id r \<noteq> t_id u) tbl = tbl"
      by (simp add: filter_id_conv)
    ultimately show ?thesis using True by simp
  next
    case False
    with Cons show ?thesis by simp
  qed
qed

lemma mset_saveTask:
  "distinct (map t_id tbl) \<Longrightarrow> t_id u \<in> set (map t_id tbl) \<Longrightarrow>
   mset (saveTask u tbl) = add_mset u (mset (filter (\<lambda>r. t_id r \<noteq> t_id u) tbl))"
  by (simp only: saveTask_replace mset_replace)

lemma fold_saveTask_ids:
  "set (map t_id us) \<subseteq> set (map t_id tbl) \<Longrightarrow> map t_id (fold saveTask us tbl) = map t_id tbl"
proof (induction us arbitrary: tbl)
  case Nil
  then show ?case by simp
next
  case (Cons u us)
  from Cons.prems have ids: "map t_id (saveTask u tbl) = map t_id tbl"
    by (intro saveTask_ids) simp
  from Cons.prems have "set (map t_id us) \<subseteq> set (map t_id (saveTask u tbl))"
    unfolding ids by simp
  from Cons.IH [OF this] show ?case
    by (simp add: ids)
qed

lemma find_fold_saveTask:
  "distinct (map t_id us) \<Longrightarrow> set (map t_id us) \<subseteq> set (map t_id tbl) \<Longrightarrow>
   find (\<lambda>r. t_id r = x) (fold saveTask us tbl) =
     (case find (\<lambda>r. t_id r = x) us of
        Some u \<Rightarrow> Some u
      | None \<Rightarrow> find (\<lambda>r. t_id r = x) tbl)"
proof (induction us arbitrary: tbl)
  case Nil
  then show ?case by simp
next
  case (Cons u us)
  from Cons.prems have mem: "t_id u \<in> set (map t_id tbl)" by simp
  then have ids: "map t_id (saveTask u tbl) = map t_id tbl"
    by (rule saveTask_ids)
  from Cons.prems have d: "distinct (map t_id us)"
    and sub: "set (map t_id us) \<subseteq> set (map t_id (saveTask u tbl))"
    unfolding ids by simp_all
  note ih = Cons.IH [OF d sub]
  show ?case
  proof (cases "t_id u = x")
    case True
    from Cons.prems(1) have "t_id u \<notin> set (map t_id us)" by simp
    then have "find (\<lambda>r. t_id r = x) us = None"
      unfolding True find_None_iff by force
    with True show ?thesis
      by (simp add: ih find_saveTask [OF mem])
  next
    case False
    then have "x \<noteq> t_id u" by blast
    then show ?thesis
      using False by (simp add: ih find_saveTask [OF mem] split: option.splits)
  qed
qed

lemma mset_fold_saveTask:
  "distinct (map t_id tbl) \<Longrightarrow> distinct (map t_id us) \<Longrightarrow>
   set (map t_id us) \<subseteq> set (map t_id tbl) \<Longrightarrow>
   mset (fold saveTask us tbl) =
     mset us + mset (filter (\<lambda>r. t_id r \<notin> set (map t_id us)) tbl)"
proof (induction us arbitrary: tbl)
  case Nil
  then show ?case by simp
next
  case (Cons u us)
  from Cons.prems have mem: "t_id u \<in> set (map t_id tbl)" by simp
  then have ids: "map t_id (saveTask u tbl) = map t_id tbl"
    by (rule saveTask_ids)
  from Cons.prems have d: "distinct (map t_id us)"
    and fresh: "t_id u \<notin> set (map t_id us)"
    and sub: "set (map t_id us) \<subseteq> set (map t_id (saveTask u tbl))"
    and dt: "distinct (map t_id (saveTask u tbl))"
    unfolding ids by simp_all
  note ih = Cons.IH [OF dt d sub]
  have saved: "mset (saveTask u tbl) =
      add_mset u (mset (filter (\<lambda>r. t_id r \<noteq> t_id u) tbl))"
    using Cons.prems(1) mem by (rule mset_saveTask)
  have "mset (filter (\<lambda>r. t_id r \<notin> set (map t_id us)) (saveTask u tbl)) =
      filter_mset (\<lambda>r. t_id r \<notin> set (map t_id us)) (mset (saveTask u tbl))"
    by (rule mset_filter)
  also have "\<dots> = add_mset u
      (filter_mset (\<lambda>r. t_id r \<notin> set (map t_id us))
         (mset (filter (\<lambda>r. t_id r \<noteq> t_id u) tbl)))"
    unfolding saved using fresh by simp
  also have "filter_mset (\<lambda>r. t_id r \<notin> set (map t_id us))
         (mset (filter (\<lambda>r. t_id r \<noteq> t_id u) tbl)) =
      mset (filter (\<lambda>r. t_id r \<notin> set (map t_id us))
         (filter (\<lambda>r. t_id r \<noteq> t_id u) tbl))"
    by (rule mset_filter [symmetric])
  also have "filter (\<lambda>r. t_id r \<notin> set (map t_id us))
         (filter (\<lambda>r. t_id r \<noteq> t_id u) tbl) =
      filter (\<lambda>r. t_id r \<notin> set (map t_id (u # us))) tbl"
    unfolding filter_filter by (rule filter_cong) auto
  finally show ?case
    by (simp add: ih)
qed

lemma reorderHelperLoop_fold:
  "reorderHelperLoop m n ord ts tbl = fold saveTask (renumber m n ord ts) tbl"
  by (induction ts arbitrary: ord tbl) (simp_all add: Let_def)

lemma slotFrom_0: "slotFrom n ord 0 = (if ord = n then ord + 1 else ord)"
  by (auto simp: slotFrom_def)

lemma slotFrom_Suc:
  "slotFrom n ord (Suc k) = slotFrom n ((if ord = n then ord + 1 else ord) + 1) k"
  by (auto simp: slotFrom_def)

lemma length_renumber:
  "length (renumber m n ord ts) = length (filter (\<lambda>t. t_id t \<noteq> m) ts)"
  by (induction ts arbitrary: ord) (simp_all add: Let_def)

lemma nth_renumber:
  "k < length (filter (\<lambda>t. t_id t \<noteq> m) ts) \<Longrightarrow>
   renumber m n ord ts ! k = (filter (\<lambda>t. t_id t \<noteq> m) ts ! k)\<lparr>t_order := slotFrom n ord k\<rparr>"
proof (induction ts arbitrary: ord k)
  case Nil
  then show ?case by simp
next
  case (Cons t ts)
  show ?case
  proof (cases "t_id t = m")
    case True
    with Cons show ?thesis by simp
  next
    case False
    show ?thesis
    proof (cases k)
      case 0
      with False show ?thesis by (simp add: Let_def slotFrom_0)
    next
      case (Suc j)
      with False Cons.prems have "j < length (filter (\<lambda>t. t_id t \<noteq> m) ts)" by simp
      from Cons.IH [OF this] False Suc show ?thesis
        by (simp add: Let_def slotFrom_Suc)
    qed
  qed
qed


lemma ids_renumber:
  "map t_id (renumber m n ord ts) = map t_id (filter (\<lambda>t. t_id t \<noteq> m) ts)"
  by (induction ts arbitrary: ord) (simp_all add: Let_def)

lemma columns_renumber:
  "map t_columnId (renumber m n ord ts) = map t_columnId (filter (\<lambda>t. t_id t \<noteq> m) ts)"
  by (induction ts arbitrary: ord) (simp_all add: Let_def)

lemma deleted_renumber:
  "map t_deletedAt (renumber m n ord ts) = map t_deletedAt (filter (\<lambda>t. t_id t \<noteq> m) ts)"
  by (induction ts arbitrary: ord) (simp_all add: Let_def)

lemma orders_renumber:
  "map t_order (renumber m n ord ts) =
   map (slotFrom n ord) [0..<length (filter (\<lambda>t. t_id t \<noteq> m) ts)]"
  by (rule nth_equalityI) (simp_all add: length_renumber nth_renumber)

lemma distinct_map_sort_key:
  "distinct (map g (sort_key f xs)) = distinct (map g xs)"
proof -
  have "mset (map g (sort_key f xs)) = mset (map g xs)"
    by simp
  then show ?thesis
    by (rule mset_eq_imp_distinct_iff)
qed

lemma distinct_ids_otherRows:
  "distinct (map t_id tbl) \<Longrightarrow> distinct (map t_id (otherRows tbl c m))"
  by (simp add: otherRows_def distinct_map_filter distinct_map_sort_key)

lemma set_otherRows:
  "set (otherRows tbl c m) = {t \<in> set tbl. t_columnId t = c \<and> t_id t \<noteq> m}"
  by (auto simp: otherRows_def)

lemma helper_fold:
  "reorderTasksInColumnHelper tbl c m n =
   fold saveTask
     (renumber m n 0 (sort_key t_order (filter (\<lambda>t. t_columnId t = c) tbl))) tbl"
  by (simp add: reorderTasksInColumnHelper_def reorderHelperLoop_fold)

lemma ids_renumbered:
  "map t_id (renumber m n 0 (sort_key t_order (filter (\<lambda>t. t_columnId t = c) tbl))) =
   map t_id (otherRows tbl c m)"
  by (simp add: ids_renumber otherRows_def)

lemma ids_otherRows_subset:
  "set (map t_id (otherRows tbl c m)) \<subseteq> set (map t_id tbl)"
  by (auto simp: set_otherRows)

lemma helper_ids:
  "map t_id (reorderTasksInColumnHelper tbl c m n) = map t_id tbl"
  unfolding helper_fold
  by (rule fold_saveTask_ids) (simp only: ids_renumbered ids_otherRows_subset)

lemma helper_find_other:
  assumes d: "distinct (map t_id tbl)" and k: "k < length (otherRows tbl c m)"
  shows "find (\<lambda>r. t_id r = t_id (otherRows tbl c m ! k)) (reorderTasksInColumnHelper tbl c m n) =
         Some ((otherRows tbl c m ! k)\<lparr>t_order := slotFrom n 0 k\<rparr>)"
proof -
  let ?us = "renumber m n 0 (sort_key t_order (filter (\<lambda>t. t_columnId t = c) tbl))"
  have len: "length ?us = length (otherRows tbl c m)"
    by (simp add: length_renumber otherRows_def)
  have nth: "?us ! k = (otherRows tbl c m ! k)\<lparr>t_order := slotFrom n 0 k\<rparr>"
    using k unfolding otherRows_def by (rule nth_renumber)
  have dus: "distinct (map t_id ?us)"
    unfolding ids_renumbered using d by (rule distinct_ids_otherRows)
  have sub: "set (map t_id ?us) \<subseteq> set (map t_id tbl)"
    unfolding ids_renumbered by (rule ids_otherRows_subset)
  have "find (\<lambda>r. t_id r = t_id (?us ! k)) ?us = Some (?us ! k)"
    using dus k len by (intro find_distinct_nth) simp_all
  moreover have "t_id (?us ! k) = t_id (otherRows tbl c m ! k)"
    by (simp add: nth)
  ultimately have "find (\<lambda>r. t_id r = t_id (otherRows tbl c m ! k)) ?us = Some (?us ! k)"
    by simp
  then show ?thesis
    unfolding helper_fold find_fold_saveTask [OF dus sub] by (simp add: nth)
qed

lemma helper_find_rest:
  assumes d: "distinct (map t_id tbl)" and x: "x \<notin> set (map t_id (otherRows tbl c m))"
  shows "find (\<lambda>r. t_id r = x) (reorderTasksInColumnHelper tbl c m n) = find (\<lambda>r. t_id r = x) tbl"
proof -
  let ?us = "renumber m n 0 (sort_key t_order (filter (\<lambda>t. t_columnId t = c) tbl))"
  have dus: "distinct (map t_id ?us)"
    unfolding ids_renumbered using d by (rule distinct_ids_otherRows)
  have sub: "set (map t_id ?us) \<subseteq> set (map t_id tbl)"
    unfolding ids_renumbered by (rule ids_otherRows_subset)
  from x have "x \<notin> set (map t_id ?us)"
    unfolding ids_renumbered .
  then have "find (\<lambda>r. t_id r = x) ?us = None"
    unfolding find_None_iff by force
  then show ?thesis
    unfolding helper_fold find_fold_saveTask [OF dus sub] by simp
qed


lemma filter_others_replace:
  "t_id u = m \<Longrightarrow>
   filter (\<lambda>t. t_id t \<noteq> m \<and> P t) (map (\<lambda>r. if t_id r = m then u else r) tbl) =
   filter (\<lambda>t. t_id t \<noteq> m \<and> P t) tbl"
  by (induction tbl) auto

lemma otherRows_filter:
  "otherRows tbl c m = sort_key t_order (filter (\<lambda>t. t_id t \<noteq> m \<and> t_columnId t = c) tbl)"
  by (simp add: otherRows_def filter_sort conj_commute)

lemma otherRows_saveTask:
  assumes "t_id u = m" "t_id u \<in> set (map t_id tbl)"
  shows "otherRows (saveTask u tbl) c m = otherRows tbl c m"
proof -
  from assms have "saveTask u tbl = map (\<lambda>r. if t_id r = m then u else r) tbl"
    by (simp add: saveTask_replace)
  then show ?thesis
    unfolding otherRows_filter by (simp only: filter_others_replace [OF assms(1)])
qed

lemma moveTask_explicit_success:
  assumes "moveTask s taskId dto userId = (Inr msg, s')" and "md_newOrder dto = Some n"
  obtains task where "findTask s taskId = Some task"
    and "s' = s\<lparr>tasks := reorderTasksInColumnHelper
                 (saveTask (task\<lparr>t_columnId := md_targetColumnId dto, t_order := n\<rparr>) (tasks s))
                 (md_targetColumnId dto) taskId n\<rparr>"
  using assms
  by (auto simp: moveTask_def getTaskById_def Let_def
        split: sum.splits option.splits if_splits)

lemma findTask_id: "findTask s taskId = Some task \<Longrightarrow> t_id task = taskId \<and> task \<in> set (tasks s)"
  by (auto simp: findTask_def find_Some_iff)

text \<open>
  Claim C1. A successful \<open>moveTask\<close> with an explicit order \<open>n\<close> stores the moved task
  in the target column with order \<open>n\<close>. The other tasks of the target column, taken in
  ascending order of their previous orders, are renumbered 0, 1, 2, ... with the value
  \<open>n\<close> left out: the \<open>k\<close>-th of them gets \<open>k\<close> when it comes before position \<open>n\<close> and
  \<open>k + 1\<close> otherwise, so their relative order is kept. No other task changes. The
  primary keys of the stored tasks are distinct.
\<close>

theorem moveTask_explicit_order:
  assumes "distinct (map t_id (tasks s))"
    and "moveTask s taskId dto userId = (Inr msg, s')"
    and "md_newOrder dto = Some n"
  shows "(\<exists>task. findTask s taskId = Some task
            \<and> findTask s' taskId = Some (task\<lparr>t_columnId := md_targetColumnId dto, t_order := n\<rparr>))
       \<and> (\<forall>k < length (otherRows (tasks s) (md_targetColumnId dto) taskId).
            findTask s' (t_id (otherRows (tasks s) (md_targetColumnId dto) taskId ! k)) =
            Some ((otherRows (tasks s) (md_targetColumnId dto) taskId ! k)
                    \<lparr>t_order := (if 0 \<le> n \<and> n \<le> int k then int k + 1 else int k)\<rparr>))
       \<and> (\<forall>t \<in> set (tasks s).
            t_columnId t \<noteq> md_targetColumnId dto \<and> t_id t \<noteq> taskId \<longrightarrow>
            findTask s' (t_id t) = Some t)
       \<and> map t_id (tasks s') = map t_id (tasks s)"
proof -
  let ?c = "md_targetColumnId dto"
  from assms(2,3) obtain task where
    task: "findTask s taskId = Some task" and
    s': "s' = s\<lparr>tasks := reorderTasksInColumnHelper
                 (saveTask (task\<lparr>t_columnId := ?c, t_order := n\<rparr>) (tasks s)) ?c taskId n\<rparr>"
    by (rule moveTask_explicit_success)
  let ?task2 = "task\<lparr>t_columnId := ?c, t_order := n\<rparr>"
  let ?tbl1 = "saveTask ?task2 (tasks s)"
  from task have tid: "t_id task = taskId" and mem0: "task \<in> set (tasks s)"
    by (simp_all add: findTask_id)
  then have mem: "t_id ?task2 \<in> set (map t_id (tasks s))" and tid2: "t_id ?task2 = taskId"
    by auto
  have ids1: "map t_id ?tbl1 = map t_id (tasks s)"
    using mem by (rule saveTask_ids)
  have d1: "distinct (map t_id ?tbl1)"
    unfolding ids1 by (rule assms(1))
  have others1: "otherRows ?tbl1 ?c taskId = otherRows (tasks s) ?c taskId"
    using tid2 mem by (rule otherRows_saveTask)
  have tasks': "tasks s' = reorderTasksInColumnHelper ?tbl1 ?c taskId n"
    by (simp add: s')
  have moved_not_other: "taskId \<notin> set (map t_id (otherRows (tasks s) ?c taskId))"
    by (auto simp: set_otherRows)
  have moved: "findTask s' taskId = Some ?task2"
  proof -
    have "taskId \<notin> set (map t_id (otherRows ?tbl1 ?c taskId))"
      unfolding others1 by (rule moved_not_other)
    then have "findTask s' taskId = find (\<lambda>r. t_id r = taskId) ?tbl1"
      unfolding findTask_def tasks' by (rule helper_find_rest [OF d1])
    also have "\<dots> = Some ?task2"
      using find_saveTask [OF mem, of taskId] tid by simp
    finally show ?thesis .
  qed
  have other: "findTask s' (t_id (otherRows (tasks s) ?c taskId ! k)) =
      Some ((otherRows (tasks s) ?c taskId ! k)
              \<lparr>t_order := (if 0 \<le> n \<and> n \<le> int k then int k + 1 else int k)\<rparr>)"
    if "k < length (otherRows (tasks s) ?c taskId)" for k
  proof -
    from that have "k < length (otherRows ?tbl1 ?c taskId)"
      by (simp only: others1)
    from helper_find_other [OF d1 this, of n] show ?thesis
      unfolding findTask_def tasks' others1 by (simp add: slotFrom_def)
  qed
  have rest: "findTask s' (t_id t) = Some t"
    if t: "t \<in> set (tasks s)" and col: "t_columnId t \<noteq> ?c" and ne: "t_id t \<noteq> taskId" for t
  proof -
    have inj: "inj_on t_id (set (tasks s))"
      using assms(1) by (simp add: distinct_map)
    have "t_id t \<notin> set (map t_id (otherRows (tasks s) ?c taskId))"
    proof
      assume "t_id t \<in> set (map t_id (otherRows (tasks s) ?c taskId))"
      then obtain r where "r \<in> set (tasks s)" "t_columnId r = ?c" "t_id r = t_id t"
        by (auto simp: set_otherRows)
      with inj t have "r = t" by (auto dest: inj_onD)
      with \<open>t_columnId r = ?c\<close> col show False by simp
    qed
    then have "t_id t \<notin> set (map t_id (otherRows ?tbl1 ?c taskId))"
      unfolding others1 .
    then have "findTask s' (t_id t) = find (\<lambda>r. t_id r = t_id t) ?tbl1"
      unfolding findTask_def tasks' by (rule helper_find_rest [OF d1])
    also have "\<dots> = find (\<lambda>r. t_id r = t_id t) (tasks s)"
      using find_saveTask [OF mem, of "t_id t"] ne tid by simp
    also have "\<dots> = Some t"
      using assms(1) t by (rule find_distinct_mem)
    finally show ?thesis .
  qed
  have ids: "map t_id (tasks s') = map t_id (tasks s)"
    unfolding tasks' helper_ids ids1 ..
  from task moved other rest ids show ?thesis
    by blast
qed


lemmas move_defs =
  moveTask_def reorderTasksInColumnHelper_def saveTask_def moveToFrontDto_def moveFarDto_def


text \<open>
  The example of the claim: with A, B, C at the orders 0, 1, 2, moving C to order 0 in the
  same column gives C = 0, A = 1, B = 2.
\<close>

theorem moveTask_explicit_order_witness:
  "findTask (snd (moveTask sampleDb 13 moveToFrontDto 1)) 13 = Some (taskC\<lparr>t_order := 0\<rparr>)
   \<and> findTask (snd (moveTask sampleDb 13 moveToFrontDto 1)) 11 = Some (taskA\<lparr>t_order := 1\<rparr>)
   \<and> findTask (snd (moveTask sampleDb 13 moveToFrontDto 1)) 12 = Some (taskB\<lparr>t_order := 2\<rparr>)"
proof -
  have d: "distinct (map t_id (tasks sampleDb))"
    by (simp add: sample_defs)
  have "fst (moveTask sampleDb 13 moveToFrontDto 1) = Inr ''Task moved successfully''"
    by (simp add: move_defs access_defs query_defs sample_defs Let_def)
  then have ok: "moveTask sampleDb 13 moveToFrontDto 1 =
      (Inr ''Task moved successfully'', snd (moveTask sampleDb 13 moveToFrontDto 1))"
    by (intro prod_eqI) simp_all
  have nd: "md_newOrder moveToFrontDto = Some 0"
    and c: "md_targetColumnId moveToFrontDto = 5"
    by (simp_all add: moveToFrontDto_def)
  note facts = moveTask_explicit_order [OF d ok nd, unfolded c]
  have others: "otherRows (tasks sampleDb) 5 13 = [taskA, taskB]"
    by (simp add: otherRows_def sample_defs)
  have "findTask sampleDb 13 = Some taskC"
    by (simp add: query_defs sample_defs)
  with facts [THEN conjunct1]
  have moved: "findTask (snd (moveTask sampleDb 13 moveToFrontDto 1)) 13 =
      Some (taskC\<lparr>t_columnId := 5, t_order := 0\<rparr>)"
    by auto
  from facts [THEN conjunct2, THEN conjunct1, rule_format, of 0]
  have first: "findTask (snd (moveTask sampleDb 13 moveToFrontDto 1)) 11 =
      Some (taskA\<lparr>t_order := 1\<rparr>)"
    by (simp add: others) (simp add: taskA_def)
  from facts [THEN conjunct2, THEN conjunct1, rule_format, of 1]
  have second: "findTask (snd (moveTask sampleDb 13 moveToFrontDto 1)) 12 =
      Some (taskB\<lparr>t_order := 2\<rparr>)"
    by (simp add: others) (simp add: taskB_def)
  from moved first second show ?thesis
    by (simp add: taskC_def)
qed

section \<open>Dense orders after a move or a reorder\<close>

lemma slots_distinct:
  assumes "0 \<le> n" "n \<le> int M"
  shows "distinct (n # map (slotFrom n 0) [0..<M])"
proof -
  have "inj_on (slotFrom n 0) (set [0..<M])"
    by (rule inj_onI) (auto simp: slotFrom_def split: if_splits)
  then have "distinct (map (slotFrom n 0) [0..<M])"
    by (simp add: distinct_map)
  moreover have "n \<notin> set (map (slotFrom n 0) [0..<M])"
    using assms by (auto simp: slotFrom_def split: if_splits)
  ultimately show ?thesis by simp
qed

lemma slots_set:
  assumes "0 \<le> n" "n \<le> int M"
  shows "set (n # map (slotFrom n 0) [0..<M]) = {0..<int M + 1}"
proof (intro set_eqI iffI)
  fix i
  assume "i \<in> set (n # map (slotFrom n 0) [0..<M])"
  with assms show "i \<in> {0..<int M + 1}"
    by (auto simp: slotFrom_def split: if_splits)
next
  fix i
  assume i: "i \<in> {0..<int M + 1}"
  show "i \<in> set (n # map (slotFrom n 0) [0..<M])"
  proof (cases "i = n")
    case True
    then show ?thesis by simp
  next
    case False
    show ?thesis
    proof (cases "i < n")
      case True
      with i assms have "nat i < M" "slotFrom n 0 (nat i) = i"
        by (auto simp: slotFrom_def)
      then have "i \<in> slotFrom n 0 ` {0..<M}"
        by (metis atLeastLessThan_iff image_eqI le0)
      then show ?thesis by simp
    next
      case gt: False
      with False i assms have "nat (i - 1) < M" "slotFrom n 0 (nat (i - 1)) = i"
        by (auto simp: slotFrom_def)
      then have "i \<in> slotFrom n 0 ` {0..<M}"
        by (metis atLeastLessThan_iff image_eqI le0)
      then show ?thesis by simp
    qed
  qed
qed

lemma filter_eq_singleton:
  "distinct xs \<Longrightarrow> x \<in> set xs \<Longrightarrow> filter (\<lambda>t. t = x) xs = [x]"
proof (induction xs)
  case Nil
  then show ?case by simp
next
  case (Cons y ys)
  show ?case
  proof (cases "y = x")
    case True
    with Cons.prems have "\<forall>t \<in> set ys. t \<noteq> x" by auto
    then have "filter (\<lambda>t. t = x) ys = []"
      by (simp add: filter_empty_conv)
    with True show ?thesis by simp
  next
    case False
    with Cons show ?thesis by simp
  qed
qed

lemma helper_column_mset:
  assumes d: "distinct (map t_id tbl)" and mem: "task2 \<in> set tbl"
    and tid: "t_id task2 = m" and col: "t_columnId task2 = c"
  shows "mset (filter (\<lambda>t. t_columnId t = c) (reorderTasksInColumnHelper tbl c m n)) =
         add_mset task2
           (mset (renumber m n 0 (sort_key t_order (filter (\<lambda>t. t_columnId t = c) tbl))))"
proof -
  let ?us = "renumber m n 0 (sort_key t_order (filter (\<lambda>t. t_columnId t = c) tbl))"
  have dus: "distinct (map t_id ?us)"
    unfolding ids_renumbered using d by (rule distinct_ids_otherRows)
  have sub: "set (map t_id ?us) \<subseteq> set (map t_id tbl)"
    unfolding ids_renumbered by (rule ids_otherRows_subset)
  have all: "mset (reorderTasksInColumnHelper tbl c m n) =
      mset ?us + mset (filter (\<lambda>r. t_id r \<notin> set (map t_id ?us)) tbl)"
    unfolding helper_fold using d dus sub by (rule mset_fold_saveTask)
  have "set (map t_columnId ?us) \<subseteq> {c}"
    unfolding columns_renumber by auto
  then have "\<forall>u \<in> set ?us. t_columnId u = c"
    by auto
  then have us: "filter (\<lambda>t. t_columnId t = c) ?us = ?us"
    by (rule filter_True)
  have inj: "inj_on t_id (set tbl)" and dt: "distinct tbl"
    using d by (simp_all add: distinct_map)
  have "filter (\<lambda>t. t_columnId t = c) (filter (\<lambda>r. t_id r \<notin> set (map t_id ?us)) tbl) =
      filter (\<lambda>t. t = task2) tbl"
    unfolding filter_filter
  proof (rule filter_cong [OF refl])
    fix t
    assume t: "t \<in> set tbl"
    show "(t_id t \<notin> set (map t_id ?us) \<and> t_columnId t = c) = (t = task2)"
    proof
      assume a: "t_id t \<notin> set (map t_id ?us) \<and> t_columnId t = c"
      have "t_id t = m"
      proof (rule ccontr)
        assume "t_id t \<noteq> m"
        with a t have "t \<in> set (otherRows tbl c m)"
          by (simp add: set_otherRows)
        then have "t_id t \<in> set (map t_id (otherRows tbl c m))"
          by simp
        with a show False
          unfolding ids_renumbered by simp
      qed
      with inj t mem tid show "t = task2"
        by (auto dest: inj_onD)
    next
      assume "t = task2"
      with tid col show "t_id t \<notin> set (map t_id ?us) \<and> t_columnId t = c"
        unfolding ids_renumbered by (auto simp: set_otherRows)
    qed
  qed
  also have "\<dots> = [task2]"
    using dt mem by (rule filter_eq_singleton)
  finally have rest: "filter (\<lambda>t. t_columnId t = c)
      (filter (\<lambda>r. t_id r \<notin> set (map t_id ?us)) tbl) = [task2]" .
  have "mset (filter (\<lambda>t. t_columnId t = c) (reorderTasksInColumnHelper tbl c m n)) =
      filter_mset (\<lambda>t. t_columnId t = c) (mset (reorderTasksInColumnHelper tbl c m n))"
    by (rule mset_filter)
  also have "\<dots> = mset (filter (\<lambda>t. t_columnId t = c) ?us)
      + mset (filter (\<lambda>t. t_columnId t = c) (filter (\<lambda>r. t_id r \<notin> set (map t_id ?us)) tbl))"
    unfolding all by (simp only: filter_union_mset mset_filter)
  also have "\<dots> = add_mset task2 (mset ?us)"
    unfolding us rest by simp
  finally show ?thesis .
qed


lemma moveTask_dense:
  assumes d: "distinct (map t_id (tasks s))"
    and ok: "moveTask s taskId dto userId = (Inr msg, s')"
    and nd: "md_newOrder dto = Some n"
    and lo: "0 \<le> n"
    and hi: "n \<le> int (length (otherRows (tasks s) (md_targetColumnId dto) taskId))"
    and active: "\<forall>t \<in> set (tasks s).
        t_columnId t = md_targetColumnId dto \<or> t_id t = taskId \<longrightarrow> t_deletedAt t = None"
  shows "denseColumn s' (md_targetColumnId dto)"
proof -
  let ?c = "md_targetColumnId dto"
  from ok nd obtain task where
    task: "findTask s taskId = Some task" and
    s': "s' = s\<lparr>tasks := reorderTasksInColumnHelper
                 (saveTask (task\<lparr>t_columnId := ?c, t_order := n\<rparr>) (tasks s)) ?c taskId n\<rparr>"
    by (rule moveTask_explicit_success)
  let ?task2 = "task\<lparr>t_columnId := ?c, t_order := n\<rparr>"
  let ?tbl1 = "saveTask ?task2 (tasks s)"
  let ?us = "renumber taskId n 0 (sort_key t_order (filter (\<lambda>t. t_columnId t = ?c) ?tbl1))"
  let ?M = "length (otherRows (tasks s) ?c taskId)"
  from task have tid: "t_id task = taskId" and mem0: "task \<in> set (tasks s)"
    by (simp_all add: findTask_id)
  then have mem: "t_id ?task2 \<in> set (map t_id (tasks s))" and tid2: "t_id ?task2 = taskId"
    by auto
  have col2: "t_columnId ?task2 = ?c" by simp
  have ids1: "map t_id ?tbl1 = map t_id (tasks s)"
    using mem by (rule saveTask_ids)
  have d1: "distinct (map t_id ?tbl1)"
    unfolding ids1 by (rule d)
  have others1: "otherRows ?tbl1 ?c taskId = otherRows (tasks s) ?c taskId"
    using tid2 mem by (rule otherRows_saveTask)
  have tasks': "tasks s' = reorderTasksInColumnHelper ?tbl1 ?c taskId n"
    by (simp add: s')
  have "find (\<lambda>r. t_id r = taskId) ?tbl1 = Some ?task2"
    using find_saveTask [OF mem, of taskId] tid by simp
  then have mem2: "?task2 \<in> set ?tbl1"
    by (rule find_Some_mem)
  have column: "mset (filter (\<lambda>t. t_columnId t = ?c) (tasks s')) = add_mset ?task2 (mset ?us)"
    unfolding tasks' using d1 mem2 tid2 col2 by (rule helper_column_mset)
  have len_us: "length (filter (\<lambda>t. t_id t \<noteq> taskId)
        (sort_key t_order (filter (\<lambda>t. t_columnId t = ?c) ?tbl1))) = ?M"
    using others1 by (simp add: otherRows_def)
  have orders_us: "map t_order ?us = map (slotFrom n 0) [0..<?M]"
    unfolding orders_renumber len_us ..
  have "map t_deletedAt ?us = map t_deletedAt (otherRows (tasks s) ?c taskId)"
    unfolding deleted_renumber using others1 by (simp add: otherRows_def)
  moreover have "\<forall>t \<in> set (otherRows (tasks s) ?c taskId). t_deletedAt t = None"
    using active by (simp add: set_otherRows)
  ultimately have "set (map t_deletedAt ?us) \<subseteq> {None}"
    by auto
  then have us_active: "\<forall>u \<in> set ?us. t_deletedAt u = None"
    by auto
  from active mem0 tid have task2_active: "t_deletedAt ?task2 = None"
    by simp
  have "set (filter (\<lambda>t. t_columnId t = ?c) (tasks s')) = set_mset (add_mset ?task2 (mset ?us))"
    unfolding column [symmetric] by simp
  then have rows: "{t \<in> set (tasks s'). t_columnId t = ?c} = insert ?task2 (set ?us)"
    by simp
  have "\<forall>t \<in> set (tasks s'). t_columnId t = ?c \<longrightarrow> t_deletedAt t = None"
  proof (intro ballI impI)
    fix t
    assume "t \<in> set (tasks s')" "t_columnId t = ?c"
    then have "t \<in> insert ?task2 (set ?us)"
      unfolding rows [symmetric] by simp
    with us_active task2_active show "t_deletedAt t = None"
      by blast
  qed
  then have "filter (\<lambda>t. t_columnId t = ?c \<and> t_deletedAt t = None) (tasks s') =
      filter (\<lambda>t. t_columnId t = ?c) (tasks s')"
    by (intro filter_cong) auto
  then have "mset (columnOrders s' ?c) =
      image_mset t_order (mset (filter (\<lambda>t. t_columnId t = ?c) (tasks s')))"
    by (simp add: columnOrders_def)
  also have "\<dots> = add_mset n (mset (map t_order ?us))"
    unfolding column by simp
  also have "\<dots> = mset (n # map (slotFrom n 0) [0..<?M])"
    unfolding orders_us by simp
  finally have m: "mset (columnOrders s' ?c) = mset (n # map (slotFrom n 0) [0..<?M])" .
  have "distinct (columnOrders s' ?c)"
    using mset_eq_imp_distinct_iff [OF m] slots_distinct [OF lo hi] by simp
  moreover have "length (columnOrders s' ?c) = Suc ?M"
    using mset_eq_length [OF m] by simp
  moreover have "int (Suc ?M) = int ?M + 1"
    by simp
  then have "set (columnOrders s' ?c) = {0..<int (Suc ?M)}"
    using mset_eq_setD [OF m] slots_set [OF lo hi] by (simp only:)
  ultimately show ?thesis
    by (simp only: denseColumn_def simp_thms)
qed


lemma reorderLoop_map:
  "reorderLoop c i ids tbl = map (reorderedRow c i ids) tbl"
proof (induction ids arbitrary: i tbl)
  case Nil
  have "reorderedRow c i [] = (\<lambda>t. t)"
    by (rule ext) simp
  then show ?case by simp
next
  case (Cons x xs)
  have "reorderedRow c i (x # xs) =
      reorderedRow c (i + 1) xs
        \<circ> (\<lambda>t. if t_id t = x \<and> t_columnId t = c then t\<lparr>t_order := i\<rparr> else t)"
    by (rule ext) simp
  then show ?case
    by (simp add: Cons.IH)
qed

lemma reorderedRow_keeps:
  "t_id (reorderedRow c i ids t) = t_id t
   \<and> t_columnId (reorderedRow c i ids t) = t_columnId t
   \<and> t_deletedAt (reorderedRow c i ids t) = t_deletedAt t"
  by (induction ids arbitrary: i t) simp_all

lemma reorderedRow_untouched:
  "t_id t \<notin> set ids \<Longrightarrow> reorderedRow c i ids t = t"
  by (induction ids arbitrary: i) simp_all

lemma reorderedRow_order:
  "distinct ids \<Longrightarrow> k < length ids \<Longrightarrow> t_id t = ids ! k \<Longrightarrow> t_columnId t = c \<Longrightarrow>
   t_order (reorderedRow c i ids t) = i + int k"
proof (induction ids arbitrary: i k t)
  case Nil
  then show ?case by simp
next
  case (Cons x xs)
  show ?case
  proof (cases k)
    case 0
    with Cons.prems have "t_id (t\<lparr>t_order := i\<rparr>) \<notin> set xs" and "t_id t = x"
      by simp_all
    with Cons.prems 0 show ?thesis
      by (simp add: reorderedRow_untouched)
  next
    case (Suc j)
    with Cons.prems have j: "j < length xs" "t_id t = xs ! j" and dx: "distinct xs"
      by simp_all
    with Cons.prems have "t_id t \<noteq> x"
      by auto
    with Cons.IH [OF dx j Cons.prems(4)] Suc show ?thesis
      by simp
  qed
qed

lemma reorderTasksInColumn_dense:
  assumes d: "distinct (map t_id (tasks s))"
    and ok: "reorderTasksInColumn s c dto userId = (Inr msg, s')"
    and di: "distinct (rd_taskIds dto)"
    and ids: "set (rd_taskIds dto) =
        set (map t_id (filter (\<lambda>t. t_columnId t = c \<and> t_deletedAt t = None) (tasks s)))"
  shows "denseColumn s' c"
proof -
  let ?ids = "rd_taskIds dto"
  let ?P = "\<lambda>t. t_columnId t = c \<and> t_deletedAt t = None"
  let ?g = "reorderedRow c 0 ?ids"
  let ?rows = "filter ?P (tasks s)"
  let ?f = "\<lambda>t. t_order (?g t)"
  from ok have tasks': "tasks s' = map ?g (tasks s)"
    by (auto simp: reorderTasksInColumn_def reorderLoop_map split: option.splits sum.splits)
  have "filter ?P (map ?g (tasks s)) = map ?g ?rows"
    by (simp add: filter_map comp_def reorderedRow_keeps)
  then have orders: "columnOrders s' c = map ?f ?rows"
    by (simp add: columnOrders_def tasks')
  have drows: "distinct (map t_id ?rows)"
    using d by (rule distinct_map_filter)
  then have inj: "inj_on t_id (set ?rows)" and dr: "distinct ?rows"
    by (simp_all add: distinct_map)
  note set_ids = ids
  have len: "length ?ids = length ?rows"
  proof -
    have "length ?ids = card (set ?ids)"
      using di by (simp add: distinct_card)
    also have "\<dots> = card (set (map t_id ?rows))"
      by (simp only: set_ids)
    also have "\<dots> = length (map t_id ?rows)"
      using drows by (rule distinct_card)
    finally show ?thesis by simp
  qed
  have pos: "\<exists>k < length ?ids. ?ids ! k = t_id t \<and> ?f t = int k" if t: "t \<in> set ?rows" for t
  proof -
    from t have "t_id t \<in> set ?ids"
      unfolding set_ids by simp
    then obtain k where k: "k < length ?ids" "?ids ! k = t_id t"
      by (auto simp: in_set_conv_nth)
    from t have "t_columnId t = c" by simp
    with di k have "?f t = 0 + int k"
      by (intro reorderedRow_order) simp_all
    with k show ?thesis by auto
  qed
  have injf: "inj_on ?f (set ?rows)"
  proof (rule inj_onI)
    fix t u
    assume t: "t \<in> set ?rows" and u: "u \<in> set ?rows" and eq: "?f t = ?f u"
    from pos [OF t] obtain k where k: "?ids ! k = t_id t" "?f t = int k" by blast
    from pos [OF u] obtain j where j: "?ids ! j = t_id u" "?f u = int j" by blast
    from eq k j have "t_id t = t_id u" by simp
    with inj t u show "t = u" by (auto dest: inj_onD)
  qed
  have dist: "distinct (map ?f ?rows)"
    using dr injf by (simp add: distinct_map)
  have sub: "set (map ?f ?rows) \<subseteq> {0..<int (length ?rows)}"
  proof
    fix v
    assume "v \<in> set (map ?f ?rows)"
    then obtain t where t: "t \<in> set ?rows" and v: "v = ?f t" by auto
    from pos [OF t] v show "v \<in> {0..<int (length ?rows)}"
      unfolding len by auto
  qed
  have "card (set (map ?f ?rows)) = length (map ?f ?rows)"
    using dist by (rule distinct_card)
  then have "card (set (map ?f ?rows)) = card {0..<int (length ?rows)}"
    by simp
  with sub have "set (map ?f ?rows) = {0..<int (length ?rows)}"
    by (intro card_subset_eq) simp_all
  with dist show ?thesis
    unfolding denseColumn_def orders by simp
qed

text \<open>
  Claim C2, as stated, fails for an explicit order beyond the column: moving task C to
  order 5 in its own column of three tasks leaves the orders 0, 1 and 5.
\<close>

theorem moveTask_far_order_counterexample:
  "fst (moveTask sampleDb 13 moveFarDto 1) = Inr ''Task moved successfully''
   \<and> columnOrders sampleDb 5 = [0, 1, 2]
   \<and> columnOrders (snd (moveTask sampleDb 13 moveFarDto 1)) 5 = [0, 1, 5]
   \<and> \<not> denseColumn (snd (moveTask sampleDb 13 moveFarDto 1)) 5"
proof -
  have res: "fst (moveTask sampleDb 13 moveFarDto 1) = Inr ''Task moved successfully''"
    by (simp add: move_defs access_defs query_defs sample_defs Let_def)
  have before: "columnOrders sampleDb 5 = [0, 1, 2]"
    by (simp add: columnOrders_def sample_defs)
  have after: "columnOrders (snd (moveTask sampleDb 13 moveFarDto 1)) 5 = [0, 1, 5]"
    by (simp add: columnOrders_def move_defs access_defs query_defs sample_defs Let_def)
  have "(5::int) \<in> set [0, 1, 5]" and "(5::int) \<notin> {0..<int (length [0, 1, 5 :: int])}"
    by simp_all
  then have "set [0, 1, 5 :: int] \<noteq> {0..<int (length [0, 1, 5 :: int])}"
    by blast
  then have "\<not> denseColumn (snd (moveTask sampleDb 13 moveFarDto 1)) 5"
    unfolding denseColumn_def after by blast
  with res before after show ?thesis
    by blast
qed

text \<open>
  Claim C2, amended. Let the primary keys of the stored tasks be distinct. After a
  successful \<open>moveTask\<close> with an explicit order \<open>n\<close> between 0 and the number of other
  tasks of the target column, on a target column without soft-deleted rows and for a task
  that is not soft-deleted, the orders of the active tasks of the target column are
  exactly 0, ..., N - 1 without duplicates. After a successful \<open>reorderTasksInColumn\<close>
  whose list names every active task of the column exactly once and nothing else, the same
  holds for that column.
\<close>

theorem target_column_dense:
  assumes "distinct (map t_id (tasks s))"
  shows "(moveTask s taskId moveDto userId = (Inr msg, sMoved)
            \<and> md_newOrder moveDto = Some n
            \<and> 0 \<le> n
            \<and> n \<le> int (length (otherRows (tasks s) (md_targetColumnId moveDto) taskId))
            \<and> (\<forall>t \<in> set (tasks s).
                  t_columnId t = md_targetColumnId moveDto \<or> t_id t = taskId \<longrightarrow>
                  t_deletedAt t = None)
          \<longrightarrow> denseColumn sMoved (md_targetColumnId moveDto))
       \<and> (reorderTasksInColumn s columnId reorderDto userId = (Inr msg, sReordered)
            \<and> distinct (rd_taskIds reorderDto)
            \<and> set (rd_taskIds reorderDto) =
                set (map t_id (filter (\<lambda>t. t_columnId t = columnId \<and> t_deletedAt t = None)
                                 (tasks s)))
          \<longrightarrow> denseColumn sReordered columnId)"
  using assms by (blast intro: moveTask_dense reorderTasksInColumn_dense)

theorem target_column_dense_witness:
  "denseColumn (snd (moveTask sampleDb 13 moveToFrontDto 1)) 5
   \<and> columnOrders (snd (moveTask sampleDb 13 moveToFrontDto 1)) 5 = [1, 2, 0]
   \<and> denseColumn (snd (reorderTasksInColumn alignedDb 5 reverseDto 1)) 5
   \<and> columnOrders (snd (reorderTasksInColumn alignedDb 5 reverseDto 1)) 5 = [2, 1, 0]"
proof -
  have d: "distinct (map t_id (tasks sampleDb))" and d': "distinct (map t_id (tasks alignedDb))"
    by (simp_all add: alignedDb_def sample_defs)
  have "fst (moveTask sampleDb 13 moveToFrontDto 1) = Inr ''Task moved successfully''"
    by (simp add: move_defs access_defs query_defs sample_defs Let_def)
  then have ok: "moveTask sampleDb 13 moveToFrontDto 1 =
      (Inr ''Task moved successfully'', snd (moveTask sampleDb 13 moveToFrontDto 1))"
    by (intro prod_eqI) simp_all
  have "fst (reorderTasksInColumn alignedDb 5 reverseDto 1) = Inr ''Tasks reordered successfully''"
    by (simp add: reorderTasksInColumn_def alignedDb_def access_defs query_defs sample_defs)
  then have ok': "reorderTasksInColumn alignedDb 5 reverseDto 1 =
      (Inr ''Tasks reordered successfully'', snd (reorderTasksInColumn alignedDb 5 reverseDto 1))"
    by (intro prod_eqI) simp_all
  have pre: "moveTask sampleDb 13 moveToFrontDto 1 =
        (Inr ''Task moved successfully'', snd (moveTask sampleDb 13 moveToFrontDto 1))
      \<and> md_newOrder moveToFrontDto = Some 0
      \<and> (0::int) \<le> 0
      \<and> 0 \<le> int (length (otherRows (tasks sampleDb) (md_targetColumnId moveToFrontDto) 13))
      \<and> (\<forall>t \<in> set (tasks sampleDb).
            t_columnId t = md_targetColumnId moveToFrontDto \<or> t_id t = 13 \<longrightarrow>
            t_deletedAt t = None)"
    using ok by (simp add: moveToFrontDto_def sample_defs)
  have pre': "reorderTasksInColumn alignedDb 5 reverseDto 1 =
        (Inr ''Tasks reordered successfully'', snd (reorderTasksInColumn alignedDb 5 reverseDto 1))
      \<and> distinct (rd_taskIds reverseDto)
      \<and> set (rd_taskIds reverseDto) =
          set (map t_id (filter (\<lambda>t. t_columnId t = 5 \<and> t_deletedAt t = None)
                           (tasks alignedDb)))"
    using ok' by (auto simp: reverseDto_def alignedDb_def sample_defs)
  have c: "md_targetColumnId moveToFrontDto = 5"
    by (simp add: moveToFrontDto_def)
  note moved = target_column_dense [OF d, THEN conjunct1, rule_format, OF pre, unfolded c]
  note reordered = target_column_dense [OF d', THEN conjunct2, rule_format, OF pre']
  have o1: "columnOrders (snd (moveTask sampleDb 13 moveToFrontDto 1)) 5 = [1, 2, 0]"
    by (simp add: columnOrders_def move_defs access_defs query_defs sample_defs Let_def)
  have o2: "columnOrders (snd (reorderTasksInColumn alignedDb 5 reverseDto 1)) 5 = [2, 1, 0]"
    by (simp add: columnOrders_def reorderTasksInColumn_def reverseDto_def alignedDb_def
          access_defs query_defs sample_defs)
  from moved reordered o1 o2 show ?thesis
    by (intro conjI)
qed

end
